(* ===== verification/Py_Prelude.thy ===== *)
theory Py_Prelude
  imports Complex_Main "HOL-Library.Sublist"
begin

text \<open>
  Shared vocabulary of the development: how the Python built-ins that
  \<^verbatim>\<open>src/main.py\<close> relies on behave on strings.  A Python \<open>str\<close> is modelled as
  an Isabelle \<open>string\<close> whose characters are the code points U+0000..U+00FF
  (Latin-1); the character classes below are CPython's Unicode classes
  restricted to that range.  The theory holds
  \<^item> \<open>py_isspace\<close> (\<open>str.isspace\<close>, the class \<open>\s\<close> of \<open>re\<close>) and
    \<open>py_isword\<close> (the class \<open>\w\<close> of \<open>re\<close>),
  \<^item> \<open>py_strip\<close> (\<open>str.strip()\<close> without arguments),
  \<^item> \<open>py_in\<close> (the operator \<open>needle in hay\<close> on strings), proved equal to
    the library's \<open>sublist\<close>,
  and the lemmas on them that the component theories share.
\<close>

named_theorems py_simps \<open>evaluation rules of the Python string model\<close>

type_synonym path = string

abbreviation LF :: char where
  "LF \<equiv> CHR 0x0A"

abbreviation APOS :: char where
  "APOS \<equiv> CHR 0x27"

subsection \<open>Character classes\<close>

text \<open>
  \<open>str.isspace\<close> on U+0000..U+00FF: tab, line feed, vertical tab, form feed,
  carriage return (9..13), the separators U+001C..U+001F, space (32), NEL (133)
  and no-break space (160).  The \<open>re\<close> class \<open>\s\<close> of a \<open>str\<close> pattern is the
  same predicate (\<open>Py_UNICODE_ISSPACE\<close>).
\<close>

definition py_isspace :: "char \<Rightarrow> bool" where
  "py_isspace c =
     (let n = (of_char c :: nat)
      in (9 \<le> n \<and> n \<le> 13) \<or> (28 \<le> n \<and> n \<le> 32) \<or> n = 133 \<or> n = 160)"

text \<open>
  The \<open>re\<close> class \<open>\w\<close> of a \<open>str\<close> pattern is \<open>ch.isalnum() or ch == '_'\<close>.
  On U+0000..U+00FF: the ASCII digits and letters, the underscore, the
  feminine and masculine ordinals (170, 186), micro sign (181), the
  superscripts two, three and one (178, 179, 185), the vulgar fractions
  (188..190) and the Latin-1 letters (192..214, 216..246, 248..255).
\<close>

definition py_isword :: "char \<Rightarrow> bool" where
  "py_isword c =
     (let n = (of_char c :: nat)
      in (48 \<le> n \<and> n \<le> 57) \<or> (65 \<le> n \<and> n \<le> 90) \<or> n = 95 \<or> (97 \<le> n \<and> n \<le> 122)
         \<or> n = 170 \<or> n = 178 \<or> n = 179 \<or> n = 181 \<or> n = 185 \<or> n = 186
         \<or> (188 \<le> n \<and> n \<le> 190) \<or> (192 \<le> n \<and> n \<le> 214) \<or> (216 \<le> n \<and> n \<le> 246)
         \<or> 248 \<le> n)"

subsection \<open>\<open>str.strip()\<close>\<close>

definition py_strip :: "string \<Rightarrow> string" where
  "py_strip s = rev (dropWhile py_isspace (rev (dropWhile py_isspace s)))"

subsection \<open>The operator \<open>in\<close> on strings\<close>

text \<open>\<open>needle in hay\<close>: some position of \<open>hay\<close> starts with \<open>needle\<close>.\<close>

fun py_in :: "string \<Rightarrow> string \<Rightarrow> bool" where
  "py_in needle [] = (needle = [])"
| "py_in needle (c # cs) = (prefix needle (c # cs) \<or> py_in needle cs)"

subsection \<open>Python values decoded from JSON\<close>

text \<open>
  The values \<open>json.loads\<close> returns, as far as the service inspects them:
  \<open>None\<close>, booleans, integers, strings, lists and dicts.  A JSON object
  keeps its members in order, duplicates included; Python's decoder keeps the
  last value of a duplicated key.  (Floating-point numbers are not modelled.)
\<close>

datatype json =
    JNull
  | JBool bool
  | JInt int
  | JStr string
  | JList "json list"
  | JObj "(string \<times> json) list"

text \<open>Truth value of a Python object (\<open>if not x\<close>).\<close>

fun py_truthy :: "json \<Rightarrow> bool" where
  "py_truthy JNull = False"
| "py_truthy (JBool b) = b"
| "py_truthy (JInt i) = (i \<noteq> 0)"
| "py_truthy (JStr s) = (s \<noteq> [])"
| "py_truthy (JList xs) = (xs \<noteq> [])"
| "py_truthy (JObj kvs) = (kvs \<noteq> [])"

fun py_type_name :: "json \<Rightarrow> string" where
  "py_type_name JNull = ''NoneType''"
| "py_type_name (JBool _) = ''bool''"
| "py_type_name (JInt _) = ''int''"
| "py_type_name (JStr _) = ''str''"
| "py_type_name (JList _) = ''list''"
| "py_type_name (JObj _) = ''dict''"

text \<open>
  \<open>x.get(k, d)\<close>: on a dict the value of the last member named \<open>k\<close>, or
  \<open>d\<close>; on any other value the attribute lookup raises \<open>AttributeError\<close>,
  whose message is the \<open>Inl\<close> value.
\<close>

fun py_get :: "json \<Rightarrow> string \<Rightarrow> json \<Rightarrow> string + json" where
  "py_get (JObj kvs) k d = Inr (case map_of (rev kvs) k of Some v \<Rightarrow> v | None \<Rightarrow> d)"
| "py_get v k d =
     Inl ([APOS] @ py_type_name v @ [APOS] @ '' object has no attribute '' @ [APOS] @ ''get'' @ [APOS])"

subsection \<open>\<open>re.search\<close>\<close>

text \<open>
  \<open>re.search(p, s)\<close> tries an anchored match of \<open>p\<close> at the positions
  \<open>0, 1, \<dots>, len(s)\<close> in turn and returns the first that succeeds.  The
  anchored matcher is the parameter \<open>m\<close>: it gets the suffix of \<open>s\<close> at the
  position and returns the group the pattern captures there, if any.
\<close>

fun re_search :: "(string \<Rightarrow> 'a option) \<Rightarrow> string \<Rightarrow> 'a option" where
  "re_search m [] = m []"
| "re_search m (c # cs) = (case m (c # cs) of Some g \<Rightarrow> Some g | None \<Rightarrow> re_search m cs)"

subsection \<open>Shared lemmas\<close>

text \<open>The scan of \<open>in\<close> decides the library's contiguous-sublist relation.\<close>

lemma py_in_iff_sublist [simp]: "py_in needle hay = sublist needle hay"
  by (induction hay) (auto simp: sublist_Cons_right)

lemma py_isspace_not_word: "py_isspace c \<Longrightarrow> \<not> py_isword c"
  by (auto simp: py_isspace_def py_isword_def Let_def)

lemma py_strip_lead_trail_space:
  assumes "\<forall>c\<in>set a. py_isspace c" and "\<forall>c\<in>set b. py_isspace c"
  shows "py_strip (a @ s @ b) = py_strip s"
proof -
  have drop_a: "dropWhile py_isspace (a @ x) = dropWhile py_isspace x" for x
    using assms(1) by (induction a) auto
  have drop_b: "dropWhile py_isspace (rev b @ x) = dropWhile py_isspace x" for x
    using assms(2) by (induction b rule: rev_induct) auto
  have nil_b: "dropWhile py_isspace b = []"
    using assms(2) by simp
  show ?thesis
  proof (cases "\<forall>c\<in>set s. py_isspace c")
    case True
    have ds: "dropWhile py_isspace s = []" using True by simp
    have dsb: "dropWhile py_isspace (s @ b) = []" using True nil_b by simp
    show ?thesis unfolding py_strip_def drop_a ds dsb by simp
  next
    case False
    then obtain x where "x \<in> set s" "\<not> py_isspace x" by blast
    then have "dropWhile py_isspace (s @ b) = dropWhile py_isspace s @ b"
      by simp
    then show ?thesis by (simp add: py_strip_def drop_a drop_b)
  qed
qed

lemma py_strip_decomp:
  "\<exists>a b. s = a @ py_strip s @ b \<and> (\<forall>c\<in>set a. py_isspace c) \<and> (\<forall>c\<in>set b. py_isspace c)"
proof -
  let ?d = "dropWhile py_isspace s"
  let ?e = "dropWhile py_isspace (rev ?d)"
  have s1: "s = takeWhile py_isspace s @ ?d" by simp
  have s2: "rev ?d = takeWhile py_isspace (rev ?d) @ ?e" by simp
  then have "?d = rev ?e @ rev (takeWhile py_isspace (rev ?d))"
    by (metis rev_append rev_rev_ident)
  with s1 have "s = takeWhile py_isspace s @ py_strip s @ rev (takeWhile py_isspace (rev ?d))"
    by (simp add: py_strip_def)
  moreover have "\<forall>c\<in>set (takeWhile py_isspace s). py_isspace c"
    by (auto dest: set_takeWhileD)
  moreover have "\<forall>c\<in>set (rev (takeWhile py_isspace (rev ?d))). py_isspace c"
    by (auto dest: set_takeWhileD)
  ultimately show ?thesis by blast
qed

lemma py_strip_hd_last:
  assumes "py_strip s \<noteq> []"
  shows "\<not> py_isspace (hd (py_strip s))" and "\<not> py_isspace (last (py_strip s))"
proof -
  let ?d = "dropWhile py_isspace s"
  have e: "dropWhile py_isspace (rev ?d) \<noteq> []"
    using assms by (simp add: py_strip_def)
  then have "?d \<noteq> []" by (auto dest: set_dropWhileD)
  then have hd_d: "\<not> py_isspace (hd ?d)"
    by (simp add: hd_dropWhile)
  have "\<not> py_isspace (hd (dropWhile py_isspace (rev ?d)))"
    using e by (simp add: hd_dropWhile)
  then show "\<not> py_isspace (last (py_strip s))"
    using e by (simp add: py_strip_def last_rev)
  have "rev ?d = takeWhile py_isspace (rev ?d) @ dropWhile py_isspace (rev ?d)" by simp
  then have "?d = py_strip s @ rev (takeWhile py_isspace (rev ?d))"
    by (metis py_strip_def rev_append rev_rev_ident)
  then have "hd ?d = hd (py_strip s)"
    using assms by (metis hd_append2)
  with hd_d show "\<not> py_isspace (hd (py_strip s))" by simp
qed

text \<open>The search returns the match at the leftmost position where the matcher succeeds.\<close>

lemma re_search_Some_iff:
  "re_search m s = Some g \<longleftrightarrow>
     (\<exists>k\<le>length s. m (drop k s) = Some g \<and> (\<forall>i<k. m (drop i s) = None))"
proof (induction s)
  case Nil
  then show ?case by simp
next
  case (Cons c cs)
  show ?case
  proof (cases "m (c # cs)")
    case (Some g')
    have "(\<exists>k\<le>length (c # cs). m (drop k (c # cs)) = Some g \<and> (\<forall>i<k. m (drop i (c # cs)) = None))
          \<longleftrightarrow> g' = g"
    proof
      assume "\<exists>k\<le>length (c # cs). m (drop k (c # cs)) = Some g \<and> (\<forall>i<k. m (drop i (c # cs)) = None)"
      then obtain k where k: "m (drop k (c # cs)) = Some g" "\<forall>i<k. m (drop i (c # cs)) = None"
        by blast
      with Some have "k = 0" by (metis drop0 neq0_conv option.distinct(1))
      with k Some show "g' = g" by simp
    qed (use Some in force)
    with Some show ?thesis by simp
  next
    case None
    have "(\<exists>k\<le>length (c # cs). m (drop k (c # cs)) = Some g \<and> (\<forall>i<k. m (drop i (c # cs)) = None))
          \<longleftrightarrow> (\<exists>k\<le>length cs. m (drop k cs) = Some g \<and> (\<forall>i<k. m (drop i cs) = None))"
    proof
      assume "\<exists>k\<le>length (c # cs). m (drop k (c # cs)) = Some g \<and> (\<forall>i<k. m (drop i (c # cs)) = None)"
      then obtain k where k: "k \<le> length (c # cs)" "m (drop k (c # cs)) = Some g"
          "\<forall>i<k. m (drop i (c # cs)) = None" by blast
      with None obtain k' where "k = Suc k'" by (cases k) auto
      with k show "\<exists>k\<le>length cs. m (drop k cs) = Some g \<and> (\<forall>i<k. m (drop i cs) = None)"
        by (metis Suc_less_eq drop_Suc_Cons Suc_le_mono length_Cons)
    next
      assume "\<exists>k\<le>length cs. m (drop k cs) = Some g \<and> (\<forall>i<k. m (drop i cs) = None)"
      then obtain k where k: "k \<le> length cs" "m (drop k cs) = Some g"
          "\<forall>i<k. m (drop i cs) = None" by blast
      have "\<forall>i<Suc k. m (drop i (c # cs)) = None"
      proof (intro allI impI)
        fix i assume "i < Suc k"
        with k None show "m (drop i (c # cs)) = None" by (cases i) auto
      qed
      with k show "\<exists>k\<le>length (c # cs). m (drop k (c # cs)) = Some g \<and> (\<forall>i<k. m (drop i (c # cs)) = None)"
        by (intro exI[of _ "Suc k"]) auto
    qed
    with None Cons.IH show ?thesis by simp
  qed
qed

lemma re_search_None_iff: "re_search m s = None \<longleftrightarrow> (\<forall>k\<le>length s. m (drop k s) = None)"
proof (induction s)
  case (Cons c cs)
  have "(\<forall>k\<le>length (c # cs). m (drop k (c # cs)) = None) \<longleftrightarrow>
        m (c # cs) = None \<and> (\<forall>k\<le>length cs. m (drop k cs) = None)"
  proof (intro iffI conjI allI impI)
    fix k assume all: "\<forall>k\<le>length (c # cs). m (drop k (c # cs)) = None" and "k \<le> length cs"
    then show "m (drop k cs) = None"
      using all[rule_format, of "Suc k"] by simp
  next
    assume "\<forall>k\<le>length (c # cs). m (drop k (c # cs)) = None"
    then show "m (c # cs) = None" by (metis drop0 le0)
  next
    fix k assume rhs: "m (c # cs) = None \<and> (\<forall>k\<le>length cs. m (drop k cs) = None)"
      and k: "k \<le> length (c # cs)"
    show "m (drop k (c # cs)) = None"
    proof (cases k)
      case 0
      with rhs show ?thesis by simp
    next
      case (Suc k')
      with rhs k show ?thesis by simp
    qed
  qed
  with Cons.IH show ?case by (auto split: option.split)
qed simp

text \<open>Positions where the matcher fails can be skipped.\<close>

lemma re_search_skip:
  "(\<forall>i<length pre. m (drop i pre @ s) = None) \<Longrightarrow> re_search m (pre @ s) = re_search m s"
proof (induction pre)
  case (Cons c pre)
  then have "m (c # pre @ s) = None" by fastforce
  moreover have "\<forall>i<length pre. m (drop i pre @ s) = None"
    using Cons.prems by (metis Suc_mono drop_Suc_Cons length_Cons)
  ultimately show ?case using Cons.IH by simp
qed simp

end
