(* ===== verification/Code_Extractor.thy ===== *)
theory Code_Extractor
  imports Py_Prelude
begin

text \<open>
  The code extractor of \<^verbatim>\<open>src/main.py\<close>, lines 49--53 of \<open>call_llm\<close>:
  \<^verbatim>\<open>match = re.search(r"```(?:python)?\n(.*?)```", generated_text, re.DOTALL)\<close>
  followed by \<open>match.group(1).strip()\<close> or the empty string.
  The regular expression is translated into the backtracking search that
  \<open>re\<close> performs for it: \<open>lazy_body\<close> is the lazy group \<open>(.*?)\<close> followed by the
  closing fence (with \<open>DOTALL\<close> the dot takes any character), \<open>fence_at\<close> is
  one match attempt at a start position (the optional \<open>python\<close> tried first,
  then skipped), \<open>fence_search\<close> tries the positions from left to right, and
  \<open>extract_code\<close> is the whole of lines 49--53.
  The lemmas give each function its declarative meaning (the shortest body,
  the first match, the leftmost start) and prove the extractor's contract.
\<close>

abbreviation fence :: string where
  "fence \<equiv> ''```''"

subsection \<open>The matcher\<close>

text \<open>\<open>(.*?)```\<close>: the shortest prefix of the input that is followed by a fence.\<close>

fun lazy_body :: "string \<Rightarrow> string option" where
  "lazy_body [] = None"
| "lazy_body (c # cs) =
     (if prefix fence (c # cs) then Some [] else map_option (Cons c) (lazy_body cs))"

text \<open>
  One match attempt at the head of the input: the opening fence, then the
  greedy optional group \<open>(?:python)?\<close> (with it first, without it on
  backtracking), the newline and the lazy body.
\<close>

definition fence_at :: "string \<Rightarrow> string option" where
  "fence_at s =
     (if prefix fence s then
        (case (if prefix (''python'' @ [LF]) (drop 3 s) then lazy_body (drop 10 s) else None) of
           Some g \<Rightarrow> Some g
         | None \<Rightarrow> (if prefix [LF] (drop 3 s) then lazy_body (drop 4 s) else None))
      else None)"

text \<open>\<open>re.search\<close>: the first start position, from the left, where an attempt succeeds.\<close>

definition fence_search :: "string \<Rightarrow> string option" where
  "fence_search = re_search fence_at"

text \<open>Lines 49--53: the stripped group, or \<open>""\<close> when nothing matches.\<close>

definition extract_code :: "string \<Rightarrow> string" where
  "extract_code t = (case fence_search t of Some g \<Rightarrow> py_strip g | None \<Rightarrow> [])"

subsection \<open>The language of the pattern\<close>

text \<open>
  The declarative reading of the pattern: the opening fence, a header
  (\<open>python\<close> and a newline, or a newline alone), a body and the closing
  fence, where the lazy group takes the shortest body, that is, the body has
  no fence that starts before its end.
\<close>

definition fence_hdr :: "string \<Rightarrow> bool" where
  "fence_hdr h \<longleftrightarrow> h = ''python'' @ [LF] \<or> h = [LF]"

definition fence_match :: "string \<Rightarrow> string \<Rightarrow> bool" where
  "fence_match s g \<longleftrightarrow>
     (\<exists>h r. fence_hdr h \<and> s = fence @ h @ g @ fence @ r \<and> \<not> sublist fence (g @ ''``''))"

subsection \<open>Each step of the matcher meets its reading\<close>

lemma fence_prefix_body:
  assumes "g \<noteq> []" and "prefix fence (g @ fence @ r)"
  shows "sublist fence (g @ ''``'')"
proof -
  obtain a g1 where g: "g = a # g1" using assms(1) by (cases g) auto
  have "prefix fence (g @ ''``'')"
  proof (cases g1)
    case Nil
    then show ?thesis using assms(2) g by simp
  next
    case (Cons b g2)
    then show ?thesis using assms(2) g by (cases g2) auto
  qed
  then show ?thesis by (rule prefix_imp_sublist)
qed

lemma no_fence_in_ticks: "\<not> sublist fence ''``''"
  by (simp add: sublist_Cons_right)

lemma lazy_body_Some_iff:
  "lazy_body s = Some g \<longleftrightarrow> (\<exists>r. s = g @ fence @ r) \<and> \<not> sublist fence (g @ ''``'')"
proof (induction s arbitrary: g)
  case Nil
  then show ?case by simp
next
  case (Cons c cs)
  show ?case
  proof (cases "prefix fence (c # cs)")
    case True
    show ?thesis
    proof (cases "g = []")
      case True
      with \<open>prefix fence (c # cs)\<close> show ?thesis
        by (auto simp: prefix_def no_fence_in_ticks)
    next
      case False
      have "\<not> ((\<exists>r. c # cs = g @ fence @ r) \<and> \<not> sublist fence (g @ ''``''))"
        using fence_prefix_body[OF False] \<open>prefix fence (c # cs)\<close> by metis
      moreover have "lazy_body (c # cs) = Some []"
        using \<open>prefix fence (c # cs)\<close> by (simp only: lazy_body.simps if_True)
      ultimately show ?thesis using False by simp
    qed
  next
    case False
    have lb: "lazy_body (c # cs) = map_option (Cons c) (lazy_body cs)"
      by (simp only: lazy_body.simps if_not_P[OF False])
    show ?thesis
    proof
      assume "lazy_body (c # cs) = Some g"
      with lb obtain g' where g: "g = c # g'" "lazy_body cs = Some g'" by auto
      with Cons.IH obtain r where r: "cs = g' @ fence @ r" and ns: "\<not> sublist fence (g' @ ''``'')"
        by blast
      have "\<not> prefix fence (c # g' @ ''``'')"
      proof
        assume "prefix fence (c # g' @ ''``'')"
        moreover have "prefix (c # g' @ ''``'') (c # cs)" using r by simp
        ultimately show False using False prefix_order.trans by blast
      qed
      with ns g r show "(\<exists>r. c # cs = g @ fence @ r) \<and> \<not> sublist fence (g @ ''``'')"
        by (auto simp: sublist_Cons_right)
    next
      assume rhs: "(\<exists>r. c # cs = g @ fence @ r) \<and> \<not> sublist fence (g @ ''``'')"
      then obtain r where r: "c # cs = g @ fence @ r" by blast
      have "g \<noteq> []"
      proof
        assume "g = []"
        with r have "prefix fence (c # cs)" by simp
        with False show False by contradiction
      qed
      with r obtain g' where g: "g = c # g'" by (cases g) auto
      with r rhs have "lazy_body cs = Some g'"
        using Cons.IH by (auto simp: sublist_Cons_right)
      with lb g show "lazy_body (c # cs) = Some g" by simp
    qed
  qed
qed
lemma fence_at_no_fence: "\<not> prefix fence s \<Longrightarrow> fence_at s = None"
  by (simp add: fence_at_def)

lemma fence_at_fence:
  "fence_at (fence @ t) =
     (if prefix (''python'' @ [LF]) t then lazy_body (drop 7 t)
      else if prefix [LF] t then lazy_body (drop 1 t) else None)"
proof (cases "prefix (''python'' @ [LF]) t")
  case True
  then have "\<not> prefix [LF] t" by (auto simp: prefix_def)
  with True show ?thesis
    by (auto simp: fence_at_def split: option.split)
next
  case False
  then show ?thesis by (simp add: fence_at_def)
qed

lemma fence_at_Some_iff:
  "fence_at s = Some g \<longleftrightarrow>
     (\<exists>h r. fence_hdr h \<and> s = fence @ h @ g @ fence @ r \<and> \<not> sublist fence (g @ ''``''))"
proof (cases "prefix fence s")
  case False
  then show ?thesis by (auto simp: fence_at_no_fence)
next
  case True
  then obtain t where s: "s = fence @ t" by (auto simp: prefix_def)
  show ?thesis
  proof (cases "prefix (''python'' @ [LF]) t")
    case True
    then obtain u where t: "t = ''python'' @ [LF] @ u" by (auto simp: prefix_def)
    have lhs: "fence_at s = lazy_body u"
      unfolding s by (subst fence_at_fence) (simp add: t)
    have rhs: "(\<exists>h r. fence_hdr h \<and> s = fence @ h @ g @ fence @ r \<and> \<not> sublist fence (g @ ''``''))
        \<longleftrightarrow> (\<exists>r. u = g @ fence @ r) \<and> \<not> sublist fence (g @ ''``'')"
      by (auto simp: s t fence_hdr_def)
    show ?thesis by (simp only: lhs rhs lazy_body_Some_iff)
  next
    case False
    show ?thesis
    proof (cases "prefix [LF] t")
      case True
      then obtain u where t: "t = LF # u" by (auto simp: prefix_def)
      have lhs: "fence_at s = lazy_body u"
        unfolding s by (subst fence_at_fence) (simp add: t)
      have rhs: "(\<exists>h r. fence_hdr h \<and> s = fence @ h @ g @ fence @ r \<and> \<not> sublist fence (g @ ''``''))
          \<longleftrightarrow> (\<exists>r. u = g @ fence @ r) \<and> \<not> sublist fence (g @ ''``'')"
        by (auto simp: s t fence_hdr_def)
      show ?thesis by (simp only: lhs rhs lazy_body_Some_iff)
    next
      case False
      have lhs: "fence_at s = None"
        using False \<open>\<not> prefix (''python'' @ [LF]) t\<close>
        unfolding s by (subst fence_at_fence) simp
      have "\<not> (\<exists>h r. fence_hdr h \<and> t = h @ r)"
        using False \<open>\<not> prefix (''python'' @ [LF]) t\<close> by (auto simp: fence_hdr_def)
      moreover have "fence_at s \<noteq> Some g" by (simp only: lhs) simp
      ultimately show ?thesis by (auto simp: s)
    qed
  qed
qed
lemma fence_search_skip:
  "CHR ''`'' \<notin> set pre \<Longrightarrow> fence_search (pre @ s) = fence_search s"
proof -
  assume pre: "CHR ''`'' \<notin> set pre"
  have "fence_at (drop i pre @ s) = None" if i: "i < length pre" for i
  proof (rule fence_at_no_fence)
    from i have "drop i pre = pre ! i # drop (Suc i) pre" by (rule Cons_nth_drop_Suc[symmetric])
    moreover have "pre ! i \<noteq> CHR ''`''" using nth_mem[OF i] pre by auto
    ultimately show "\<not> prefix fence (drop i pre @ s)" by simp
  qed
  then show ?thesis unfolding fence_search_def by (intro re_search_skip) blast
qed

lemma fence_at_prefix: "fence_at s = Some g \<Longrightarrow> prefix fence s"
  by (auto simp: fence_at_def split: if_splits)

lemma fence_search_sublist: "fence_search s = Some g \<Longrightarrow> sublist fence s"
proof -
  assume "fence_search s = Some g"
  then obtain k where "fence_at (drop k s) = Some g"
    unfolding fence_search_def re_search_Some_iff by blast
  then have "prefix fence (drop k s)" by (rule fence_at_prefix)
  then show ?thesis using sublist_drop prefix_imp_sublist sublist_order.order.trans by blast
qed

subsection \<open>Properties of the extractor\<close>

text \<open>
  C2. A reply that holds a well-formed fenced block, with no backtick before
  it and no fence inside its body, yields exactly the body with the
  surrounding whitespace stripped, whatever text precedes or follows the block.
\<close>

theorem extract_code_fenced:
  assumes "CHR ''`'' \<notin> set pre" and "fence_hdr h" and "\<not> sublist fence (body @ ''``'')"
  shows "extract_code (pre @ fence @ h @ body @ fence @ post) = py_strip body"
proof -
  have "fence_at (fence @ h @ body @ fence @ post) = Some body"
    using assms(2,3) by (auto simp only: fence_at_Some_iff)
  then have "fence_search (fence @ h @ body @ fence @ post) = Some body"
    by (simp add: fence_search_def)
  then show ?thesis
    using fence_search_skip[OF assms(1)] by (simp add: extract_code_def)
qed

theorem extract_code_fenced_witness:
  "CHR ''`'' \<notin> set (''Sure:'' @ [LF]) \<and> fence_hdr (''python'' @ [LF]) \<and>
   \<not> sublist fence ('' x = 1'' @ ''``'') \<and>
   extract_code ((''Sure:'' @ [LF]) @ fence @ (''python'' @ [LF]) @ '' x = 1'' @ fence @ [LF]) = ''x = 1''"
  using extract_code_fenced[of "''Sure:'' @ [LF]" "''python'' @ [LF]" "'' x = 1''" "[LF]"]
  by (simp add: fence_hdr_def py_strip_def py_isspace_def sublist_Cons_right)

text \<open>
  C4. A reply without a triple backtick yields the empty string, in
  particular the unfenced code that the adapter's own instruction asks for.
\<close>

theorem extract_code_unfenced: "\<not> sublist fence t \<Longrightarrow> extract_code t = []"
  by (auto simp: extract_code_def dest: fence_search_sublist split: option.split)

theorem extract_code_unfenced_witness:
  "\<not> sublist fence ''class A(Scene): pass'' \<and> extract_code ''class A(Scene): pass'' = []"
  using extract_code_unfenced[of "''class A(Scene): pass''"] by (simp add: sublist_Cons_right)

text \<open>
  C3. The search refines the pattern's reading: it returns the group of the
  leftmost position where the pattern matches, and only there.
\<close>

theorem fence_search_leftmost:
  "fence_search s = Some g \<longleftrightarrow>
     (\<exists>k\<le>length s. fence_match (drop k s) g \<and> (\<forall>i<k. \<forall>g'. \<not> fence_match (drop i s) g'))"
proof -
  have "fence_at x = None \<longleftrightarrow> (\<forall>g'. \<not> fence_match x g')" for x
    by (metis fence_at_Some_iff fence_match_def not_None_eq)
  then show ?thesis
    unfolding fence_search_def re_search_Some_iff by (simp add: fence_at_Some_iff fence_match_def)
qed

theorem fence_search_leftmost_witness:
  "\<exists>k\<le>length (''a'' @ fence @ [LF] @ ''b'' @ fence).
     fence_match (drop k (''a'' @ fence @ [LF] @ ''b'' @ fence)) ''b'' \<and>
     (\<forall>i<k. \<forall>g'. \<not> fence_match (drop i (''a'' @ fence @ [LF] @ ''b'' @ fence)) g')"
proof -
  have "fence_search (''a'' @ fence @ [LF] @ ''b'' @ fence) = Some ''b''"
    by (simp add: fence_search_def fence_at_def)
  then show ?thesis using fence_search_leftmost by blast
qed

end
