(* ===== verification/Llm_Client.thy ===== *)
theory Llm_Client
  imports Code_Extractor
begin

text \<open>
  The LLM client adapter, \<open>call_llm\<close> of \<^verbatim>\<open>src/main.py\<close> (lines 32--58).
  The generative service (\<open>gemini_model.generate_content\<close> together with the
  access \<open>response.text\<close>) is outside the repository: it is the parameter
  \<open>api\<close>, a function from the request the adapter builds to the service's
  answer, which is either text or an exception with its message.  Every other
  step of the function is translated: the request (two user turns, the
  instruction and the prompt, and the temperature 0.2), the extraction of
  lines 49--53 (theory \<open>Code_Extractor\<close>), the handler that turns any
  exception into the sentinel string \<open>"error: " + str(e)\<close>, and the
  diagnostic line it prints.  What the process prints is kept as a list of
  \<open>log_entry\<close> values, one per \<open>print\<close> call of the source.
\<close>

record gen_request =
  contents :: "(string \<times> json) list"
  temperature :: rat

datatype llm_reply = LlmText string | LlmRaise string

type_synonym llm_service = "gen_request \<Rightarrow> llm_reply"

datatype log_entry =
    LogPrompt json
  | LogLlmOutput string
  | LogLlmError string
  | LogScene string
  | LogPath string

definition system_instruction :: string where
  "system_instruction =
     ''You'' @ [APOS] @ ''re a Python tutor that generates only Manim animation code as text ''
     @ ''with proper indentation dont wrap the code inside this ```python ``` ''"

definition llm_request :: "json \<Rightarrow> gen_request" where
  "llm_request prompt =
     \<lparr>contents = [(''user'', JStr system_instruction), (''user'', prompt)], temperature = 2 / 10\<rparr>"

definition call_llm :: "llm_service \<Rightarrow> json \<Rightarrow> string \<times> log_entry list" where
  "call_llm api prompt =
     (case api (llm_request prompt) of
        LlmText t \<Rightarrow> (extract_code t, [])
      | LlmRaise e \<Rightarrow> (''error: '' @ e, [LogLlmError e]))"

end
