(* ===== verification/Scene_Resolver.thy ===== *)
theory Scene_Resolver
  imports Py_Prelude
begin

text \<open>
  The scene-name resolver of \<^verbatim>\<open>src/main.py\<close>, lines 75--76 of \<open>generate\<close>:
  \<^verbatim>\<open>scene_match = re.search(r"class\s+(\w+)\s*\(", llm_output)\<close>
  \<^verbatim>\<open>scene_name = scene_match.group(1) if scene_match else "Generated_Scene"\<close>
  \<open>scene_at\<close> is one match attempt of the pattern at a start position.  Every
  quantifier of the pattern is greedy and none of its backtracking choices can
  succeed where the greedy one fails (a space is never a word character and
  neither is the parenthesis), so the attempt takes the longest run of each
  class; \<open>scene_at_Some_iff\<close> proves that this is the pattern's reading.
  \<open>scene_search\<close> is \<open>re.search\<close> and \<open>resolve_scene_name\<close> the two lines.
\<close>

definition scene_at :: "string \<Rightarrow> string option" where
  "scene_at s =
     (if prefix ''class'' s then
        (let r1 = drop 5 s;
             sp = takeWhile py_isspace r1;
             r2 = dropWhile py_isspace r1;
             w = takeWhile py_isword r2;
             r3 = dropWhile py_isword r2;
             r4 = dropWhile py_isspace r3
         in if sp \<noteq> [] \<and> w \<noteq> [] \<and> prefix ''('' r4 then Some w else None)
      else None)"

definition scene_search :: "string \<Rightarrow> string option" where
  "scene_search = re_search scene_at"

definition default_scene :: string where
  "default_scene = ''Generated_Scene''"

definition resolve_scene_name :: "string \<Rightarrow> string" where
  "resolve_scene_name code = (case scene_search code of Some w \<Rightarrow> w | None \<Rightarrow> default_scene)"

subsection \<open>The language of the pattern\<close>

definition scene_match :: "string \<Rightarrow> string \<Rightarrow> bool" where
  "scene_match s w \<longleftrightarrow>
     (\<exists>sp sp2 r. s = ''class'' @ sp @ w @ sp2 @ ''('' @ r \<and>
        sp \<noteq> [] \<and> (\<forall>c\<in>set sp. py_isspace c) \<and>
        w \<noteq> [] \<and> (\<forall>c\<in>set w. py_isword c) \<and> (\<forall>c\<in>set sp2. py_isspace c))"

definition word_run :: "string \<Rightarrow> bool" where
  "word_run w \<longleftrightarrow> w \<noteq> [] \<and> (\<forall>c\<in>set w. py_isword c)"

subsection \<open>Each step of the matcher meets its reading\<close>

lemma paren_not_space_word: "\<not> py_isspace (CHR ''('')" "\<not> py_isword (CHR ''('')"
  by (simp_all add: py_isspace_def py_isword_def)

lemma takeWhile_all_append:
  "(\<forall>c\<in>set xs. P c) \<Longrightarrow> (ys = [] \<or> \<not> P (hd ys)) \<Longrightarrow> takeWhile P (xs @ ys) = xs"
  by (cases ys) (simp_all add: takeWhile_append2)

lemma dropWhile_all_append:
  "(\<forall>c\<in>set xs. P c) \<Longrightarrow> (ys = [] \<or> \<not> P (hd ys)) \<Longrightarrow> dropWhile P (xs @ ys) = ys"
  by (cases ys) (simp_all add: dropWhile_append2)

lemma scene_at_Some_iff: "scene_at s = Some w \<longleftrightarrow> scene_match s w"
proof
  assume at: "scene_at s = Some w"
  then have pf: "prefix ''class'' s" by (auto simp: scene_at_def split: if_splits)
  define r1 where "r1 = drop 5 s"
  define r2 where "r2 = dropWhile py_isspace r1"
  define r3 where "r3 = dropWhile py_isword r2"
  define r4 where "r4 = dropWhile py_isspace r3"
  have s: "s = ''class'' @ r1" using pf by (auto simp: r1_def prefix_def)
  from at pf have w: "w = takeWhile py_isword r2" and sp: "takeWhile py_isspace r1 \<noteq> []"
      and ne: "w \<noteq> []" and par: "prefix ''('' r4"
    by (auto simp: scene_at_def Let_def r1_def r2_def r3_def r4_def split: if_splits)
  from par obtain r where r4: "r4 = ''('' @ r" by (auto simp: prefix_def)
  have d1: "r1 = takeWhile py_isspace r1 @ r2" by (simp add: r2_def)
  have d2: "r2 = w @ r3" by (simp add: w r3_def)
  have "r3 = takeWhile py_isspace r3 @ r4" by (simp add: r4_def)
  then have d3: "r3 = takeWhile py_isspace r3 @ ''('' @ r" by (simp only: r4)
  have "s = ''class'' @ takeWhile py_isspace r1 @ w @ takeWhile py_isspace r3 @ ''('' @ r"
    using s d1 d2 d3 by metis
  moreover have "\<forall>c\<in>set (takeWhile py_isspace r1). py_isspace c"
    "\<forall>c\<in>set w. py_isword c" "\<forall>c\<in>set (takeWhile py_isspace r3). py_isspace c"
    by (auto simp: w dest: set_takeWhileD)
  ultimately show "scene_match s w"
    unfolding scene_match_def using sp ne by blast
next
  assume "scene_match s w"
  then obtain sp sp2 r where s: "s = ''class'' @ sp @ w @ sp2 @ ''('' @ r"
      and sp: "sp \<noteq> []" "\<forall>c\<in>set sp. py_isspace c"
      and w: "w \<noteq> []" "\<forall>c\<in>set w. py_isword c" and sp2: "\<forall>c\<in>set sp2. py_isspace c"
    unfolding scene_match_def by blast
  have hw: "\<not> py_isspace (hd w)" using w hd_in_set[of w] py_isspace_not_word by blast
  have hsp2: "\<not> py_isword (hd (sp2 @ ''('' @ r))"
    using sp2 paren_not_space_word by (cases sp2) (auto dest: py_isspace_not_word)
  have "takeWhile py_isspace (sp @ w @ sp2 @ ''('' @ r) = sp"
    using sp w hw by (intro takeWhile_all_append) auto
  moreover have "dropWhile py_isspace (sp @ w @ sp2 @ ''('' @ r) = w @ sp2 @ ''('' @ r"
    using sp w hw by (intro dropWhile_all_append) auto
  moreover have "takeWhile py_isword (w @ sp2 @ ''('' @ r) = w"
    using w hsp2 by (intro takeWhile_all_append) auto
  moreover have "dropWhile py_isword (w @ sp2 @ ''('' @ r) = sp2 @ ''('' @ r"
    using w hsp2 by (intro dropWhile_all_append) auto
  moreover have "dropWhile py_isspace (sp2 @ ''('' @ r) = ''('' @ r"
    using sp2 paren_not_space_word by (intro dropWhile_all_append) auto
  ultimately show "scene_at s = Some w"
    using sp w by (simp add: scene_at_def s Let_def)
qed

lemma class_no_overlap:
  assumes "u \<noteq> []" and "\<not> sublist ''class'' u"
  shows "\<not> prefix ''class'' (u @ ''class'' @ t)"
proof
  assume pc: "prefix ''class'' (u @ ''class'' @ t)"
  have "prefix u (u @ ''class'' @ t)" by simp
  with pc have "prefix ''class'' u \<or> prefix u ''class''" by (rule prefix_same_cases)
  moreover have "\<not> prefix ''class'' u" using assms(2) by (auto dest: prefix_imp_sublist)
  ultimately have "prefix u ''class''" by blast
  then have "u \<in> {''c'', ''cl'', ''cla'', ''clas'', ''class''}"
    using assms(1) by (auto simp: prefix_Cons)
  then show False using pc assms(2) by auto
qed

lemma scene_at_no_class: "\<not> prefix ''class'' s \<Longrightarrow> scene_at s = None"
  by (simp add: scene_at_def)

lemma scene_at_prefix: "scene_at s = Some w \<Longrightarrow> prefix ''class'' s"
  by (auto simp: scene_at_def split: if_splits)

lemma scene_search_skip:
  assumes "\<not> sublist ''class'' pre"
  shows "scene_search (pre @ ''class'' @ t) = scene_search (''class'' @ t)"
proof -
  have "scene_at (drop i pre @ ''class'' @ t) = None" if i: "i < length pre" for i
  proof -
    have "drop i pre \<noteq> []" using i by simp
    moreover have "\<not> sublist ''class'' (drop i pre)"
      using assms sublist_drop sublist_order.order.trans by metis
    ultimately have "\<not> prefix ''class'' (drop i pre @ ''class'' @ t)" by (rule class_no_overlap)
    then show ?thesis by (rule scene_at_no_class)
  qed
  then show ?thesis unfolding scene_search_def by (intro re_search_skip) blast
qed

lemma scene_search_sublist: "scene_search s = Some w \<Longrightarrow> sublist ''class'' s"
proof -
  assume "scene_search s = Some w"
  then obtain k where "scene_at (drop k s) = Some w"
    unfolding scene_search_def re_search_Some_iff by blast
  then have "prefix ''class'' (drop k s)" by (rule scene_at_prefix)
  then show ?thesis using sublist_drop prefix_imp_sublist sublist_order.order.trans by blast
qed

subsection \<open>Properties of the resolver\<close>

text \<open>
  C5. Round trip: the scene name of a declaration \<open>class <n>(\<dots>\<close> is \<open>n\<close>
  whatever follows it, for every name made of word characters, provided no
  \<open>class\<close> occurs in the text before the declaration.
\<close>

theorem resolve_scene_decl:
  assumes "\<not> sublist ''class'' pre" and "word_run n" 
  shows "resolve_scene_name (pre @ ''class '' @ n @ ''('' @ rest) = n"
proof -
  have "scene_match (''class '' @ n @ ''('' @ rest) n"
    using assms(2) unfolding scene_match_def word_run_def
    by (intro exI[of _ "'' ''"] exI[of _ "[]"] exI[of _ rest]) (simp add: py_isspace_def)
  then have "scene_at (''class '' @ n @ ''('' @ rest) = Some n" by (simp add: scene_at_Some_iff)
  then have "scene_search (''class'' @ '' '' @ n @ ''('' @ rest) = Some n"
    by (simp add: scene_search_def)
  then show ?thesis
    using scene_search_skip[OF assms(1), of "'' '' @ n @ ''('' @ rest"]
    by (simp add: resolve_scene_name_def)
qed

theorem resolve_scene_decl_witness:
  "\<not> sublist ''class'' (''from manim import *'' @ [LF]) \<and> word_run ''Foo'' \<and>
   resolve_scene_name ((''from manim import *'' @ [LF]) @ ''class '' @ ''Foo'' @ ''('' @ ''Scene):'') = ''Foo''"
  using resolve_scene_decl[of "''from manim import *'' @ [LF]" "''Foo''" "''Scene):''"]
  by (simp add: word_run_def py_isword_def sublist_Cons_right)

text \<open>
  C7. Source without the keyword \<open>class\<close> resolves to the default name
  \<open>Generated_Scene\<close>.
\<close>

theorem resolve_default: "\<not> sublist ''class'' code \<Longrightarrow> resolve_scene_name code = default_scene"
  by (auto simp: resolve_scene_name_def dest: scene_search_sublist split: option.split)

theorem resolve_default_witness:
  "\<not> sublist ''class'' ''print(1)'' \<and> resolve_scene_name ''print(1)'' = default_scene"
  using resolve_default[of "''print(1)''"] by (simp add: sublist_Cons_right)

text \<open>
  The resolved name is always a non-empty run of word characters (the default
  included): it never holds a path separator, a dot or a space.
\<close>

lemma resolve_word_run: "word_run (resolve_scene_name code)"
proof (cases "scene_search code")
  case None
  then show ?thesis by (simp add: resolve_scene_name_def default_scene_def word_run_def py_isword_def)
next
  case (Some w)
  then obtain k where "scene_at (drop k code) = Some w"
    unfolding scene_search_def re_search_Some_iff by blast
  then have "scene_match (drop k code) w" by (simp add: scene_at_Some_iff)
  then have "word_run w" by (auto simp: scene_match_def word_run_def)
  with Some show ?thesis by (simp add: resolve_scene_name_def)
qed

text \<open>
  C6. The search refines the pattern's reading: it returns the group of the
  leftmost position where \<open>class\s+(\w+)\s*\(\<close> matches, and only there.
\<close>

theorem scene_search_leftmost:
  "scene_search s = Some w \<longleftrightarrow>
     (\<exists>k\<le>length s. scene_match (drop k s) w \<and> (\<forall>i<k. \<forall>w'. \<not> scene_match (drop i s) w'))"
proof -
  have "scene_at x = None \<longleftrightarrow> (\<forall>w'. \<not> scene_match x w')" for x
    by (metis scene_at_Some_iff not_None_eq)
  then show ?thesis
    unfolding scene_search_def re_search_Some_iff by (simp add: scene_at_Some_iff)
qed

theorem scene_search_leftmost_witness:
  "\<exists>k\<le>length ''# class A(''.
     scene_match (drop k ''# class A('') ''A'' \<and> (\<forall>i<k. \<forall>w'. \<not> scene_match (drop i ''# class A('') w')"
proof -
  have "scene_search ''# class A('' = Some ''A''"
    by (simp add: scene_search_def scene_at_def py_isspace_def py_isword_def)
  then show ?thesis using scene_search_leftmost by blast
qed

end
