(* ===== verification/Http_Service.thy ===== *)
theory Http_Service
  imports Llm_Client Scene_Resolver
begin

text \<open>
  The HTTP service of \<^verbatim>\<open>src/main.py\<close>: the render invoker (lines 80--88)
  and the two endpoints \<open>generate\<close> (\<open>POST /generate\<close>, lines 61--96) and
  \<open>ai_video_retrieve\<close> (\<open>GET /video\<close>, lines 98--108).

  The state a request sees is a \<open>world\<close>: the files of the working directory
  (a map from path to contents; \<open>os.path.exists\<close> is membership) and the
  lines the process has printed.  The collaborators outside the repository
  are the fields of an \<open>env\<close>: the generative service (\<open>llm\<close>), whether
  \<open>open(path, "w")\<close> raises an \<open>OSError\<close> (\<open>open_error\<close>), and the
  \<open>manim\<close> subprocess (\<open>run\<close>), which gets the files and the argument vector
  and either cannot be started (\<open>SpawnFailed\<close>, e.g. \<open>FileNotFoundError\<close>) or
  exits with a code, its captured output and error streams and the files as
  it leaves them.  The request body is what \<open>await request.json()\<close> yields: a
  decoded value or the decoder's exception message.

  Python exceptions are values: a step returns \<open>Inl msg\<close> where the source
  raises, together with the world as it is at that moment, and the outermost
  \<open>except Exception as e\<close> of \<open>generate\<close> turns \<open>Inl msg\<close> into the response
  \<open>{"status": "failed", "error": msg}\<close>.  Responses are the JSON objects the
  handlers return, in the source's key order, or a file response.
\<close>

record world =
  files :: "path \<Rightarrow> string option"
  console :: "log_entry list"

datatype proc_outcome =
    SpawnFailed string
  | Exited int string string "path \<Rightarrow> string option"

record env =
  llm :: llm_service
  open_error :: "path \<Rightarrow> string option"
  run :: "(path \<Rightarrow> string option) \<Rightarrow> string list \<Rightarrow> proc_outcome"

datatype body = Body json | BadJson string

datatype response = JsonResp json | FileResp path string

definition print_line :: "log_entry \<Rightarrow> world \<Rightarrow> world" where
  "print_line l w = w\<lparr>console := console w @ [l]\<rparr>"

subsection \<open>Render invoker\<close>

definition source_file :: path where
  "source_file = ''video.py''"

definition manim_argv :: "string \<Rightarrow> string list" where
  "manim_argv scene = [''manim'', ''-qm'', source_file, scene]"

text \<open>
  Lines 80--88: overwrite \<open>video.py\<close> with the code, then run \<open>manim\<close>
  synchronously and capture its streams.  The result is the exit code and the
  two captured streams.
\<close>

definition render_invoke ::
  "env \<Rightarrow> string \<Rightarrow> string \<Rightarrow> world \<Rightarrow> (string + int \<times> string \<times> string) \<times> world" where
  "render_invoke e code scene w =
     (case open_error e source_file of
        Some err \<Rightarrow> (Inl err, w)
      | None \<Rightarrow>
          (let w1 = w\<lparr>files := (files w)(source_file \<mapsto> code)\<rparr>
           in case run e (files w1) (manim_argv scene) of
                SpawnFailed err \<Rightarrow> (Inl err, w1)
              | Exited rc out err fs \<Rightarrow> (Inr (rc, out, err), w1\<lparr>files := fs\<rparr>)))"

text \<open>
  The render engine's output convention (outside the repository; the
  specification names the resulting path, the quality table is manim's):
  \<open>manim FLAG FILE SCENE\<close> with \<open>FILE = stem.py\<close> writes scene \<open>SCENE\<close> to
  \<open>media/videos/stem/DIR/SCENE.mp4\<close>, where \<open>DIR\<close> is the resolution and
  frame rate of the quality flag.  \<open>manim_output\<close> computes that path from
  any command line, and a render service keeps the convention if every run
  that exits with code 0 leaves behind the file its command line names.  The
  convention says nothing about \<open>render_invoke\<close>'s own command line: that
  it leads to the path \<open>GET /video\<close> reads is what has to be proved.
\<close>

definition quality_dirs :: "(string \<times> string) list" where
  "quality_dirs = [(''-ql'', ''480p15''), (''-qm'', ''720p30''), (''-qh'', ''1080p60''),
                   (''-qp'', ''1440p60''), (''-qk'', ''2160p60'')]"

definition script_stem :: "path \<Rightarrow> string option" where
  "script_stem f =
     (if 3 < length f \<and> drop (length f - 3) f = ''.py'' then Some (take (length f - 3) f) else None)"

fun manim_output :: "string list \<Rightarrow> path option" where
  "manim_output [cmd, flag, file, scene] =
     (if cmd \<noteq> ''manim'' then None
      else case (map_of quality_dirs flag, script_stem file) of
             (Some q, Some st) \<Rightarrow> Some (''media/videos/'' @ st @ ''/'' @ q @ ''/'' @ scene @ ''.mp4'')
           | _ \<Rightarrow> None)"
| "manim_output _ = None"

definition renders_to_convention :: "env \<Rightarrow> bool" where
  "renders_to_convention e \<longleftrightarrow>
     (\<forall>fs argv out err fs' p. run e fs argv = Exited 0 out err fs' \<longrightarrow>
        manim_output argv = Some p \<longrightarrow> fs' p \<noteq> None)"

subsection \<open>\<open>POST /generate\<close>\<close>

definition resp_failed :: "string \<Rightarrow> response" where
  "resp_failed msg = JsonResp (JObj [(''status'', JStr ''failed''), (''error'', JStr msg)])"

definition resp_error_message :: "string \<Rightarrow> response" where
  "resp_error_message msg = JsonResp (JObj [(''status'', JStr ''error''), (''message'', JStr msg)])"

definition resp_error_details :: "string \<Rightarrow> response" where
  "resp_error_details d = JsonResp (JObj [(''status'', JStr ''error''), (''details'', JStr d)])"

definition resp_success :: "string \<Rightarrow> string \<Rightarrow> response" where
  "resp_success scene d =
     JsonResp (JObj [(''status'', JStr ''success''), (''scene_name'', JStr scene), (''details'', JStr d)])"

text \<open>
  Lines 76--93, after the sentinel test: resolve the scene name, print it,
  render and answer from the exit code.
\<close>

definition generate_render :: "env \<Rightarrow> string \<Rightarrow> world \<Rightarrow> response \<times> world" where
  "generate_render e out w =
     (let scene = resolve_scene_name out;
          w1 = print_line (LogScene scene) w
      in case render_invoke e out scene w1 of
           (Inl err, w2) \<Rightarrow> (resp_failed err, w2)
         | (Inr (rc, sout, serr), w2) \<Rightarrow>
             (if rc \<noteq> 0 then (resp_error_details serr, w2) else (resp_success scene sout, w2)))"

text \<open>
  Lines 61--96: decode the body, read the prompt, refuse a falsy prompt, call
  the model, test the sentinel, then render.
\<close>

definition generate :: "env \<Rightarrow> body \<Rightarrow> world \<Rightarrow> response \<times> world" where
  "generate e b w =
     (case b of
        BadJson err \<Rightarrow> (resp_failed err, w)
      | Body data \<Rightarrow>
          (case py_get data ''prompt'' (JStr []) of
             Inl err \<Rightarrow> (resp_failed err, w)
           | Inr prompt \<Rightarrow>
               (if \<not> py_truthy prompt then (resp_error_message ''Prompt is required'', w)
                else
                  (let w1 = print_line (LogPrompt prompt) w;
                       (out, logs) = call_llm (llm e) prompt;
                       w2 = print_line (LogLlmOutput out) (w1\<lparr>console := console w1 @ logs\<rparr>)
                   in if py_in ''error:'' out then (resp_error_message out, w2)
                      else generate_render e out w2))))"

subsection \<open>\<open>GET /video\<close>\<close>

definition video_path :: "string \<Rightarrow> path" where
  "video_path scene = ''media/videos/video/720p30/'' @ scene @ ''.mp4''"

text \<open>
  Lines 98--106.  The query parameter is optional with the default
  \<open>"Generated_Scene"\<close>.  None of the statements in the \<open>try\<close> block can raise
  on a string argument (\<open>os.path.exists\<close> answers \<open>False\<close> on a path it
  cannot check, and \<open>FileResponse\<close> does not open the file when it is built),
  so the handler of lines 107--108 is not reachable and not modelled.
\<close>

definition ai_video_retrieve :: "string option \<Rightarrow> world \<Rightarrow> response \<times> world" where
  "ai_video_retrieve q w =
     (let scene = (case q of Some s \<Rightarrow> s | None \<Rightarrow> default_scene);
          p = video_path scene;
          w1 = print_line (LogPath p) w
      in if files w p = None
         then (JsonResp (JObj [(''status'', JStr ''error''), (''message'', JStr ''video not found.'')]), w1)
         else (FileResp p ''video/mp4'', w1))"

subsection \<open>Properties of the handlers\<close>

lemma resp_success_distinct [simp]:
  "resp_success n d \<noteq> resp_failed m" "resp_success n d \<noteq> resp_error_message m"
  "resp_success n d \<noteq> resp_error_details m"
  "resp_failed m \<noteq> resp_success n d" "resp_error_message m \<noteq> resp_success n d"
  "resp_error_details m \<noteq> resp_success n d"
  by (simp_all add: resp_success_def resp_failed_def resp_error_message_def resp_error_details_def)

lemma resp_success_inject [simp]:
  "resp_success n d = resp_success n' d' \<longleftrightarrow> n = n' \<and> d = d'"
  by (simp add: resp_success_def)

lemma generate_render_success:
  assumes "generate_render e out w = (resp_success n d, w')"
  shows "n = resolve_scene_name out \<and> (\<exists>fs err. run e fs (manim_argv n) = Exited 0 d err (files w'))"
  using assms
  by (auto simp: generate_render_def render_invoke_def print_line_def Let_def
      split: option.splits proc_outcome.splits if_splits) blast

lemma generate_success:
  assumes "generate e b w = (resp_success n d, w')"
  shows "\<exists>out. n = resolve_scene_name out \<and> (\<exists>fs err. run e fs (manim_argv n) = Exited 0 d err (files w'))"
  using assms generate_render_success
  by (auto simp: generate_def Let_def split: body.splits sum.splits if_splits prod.splits) blast+

text \<open>
  C9. A body whose prompt is missing or falsy (\<open>""\<close>, \<open>null\<close>, \<open>0\<close>,
  \<open>false\<close>, an empty list or object) is answered with
  \<open>{"status": "error", "message": "Prompt is required"}\<close>, whatever the
  collaborators would do, and nothing of the world changes.
\<close>

theorem generate_falsy_prompt:
  assumes "py_get data ''prompt'' (JStr []) = Inr p" and "\<not> py_truthy p"
  shows "generate e (Body data) w = (resp_error_message ''Prompt is required'', w)"
  using assms by (simp add: generate_def)

theorem generate_falsy_prompt_witness:
  "py_get (JObj [(''prompt'', JStr [])]) ''prompt'' (JStr []) = Inr (JStr []) \<and> \<not> py_truthy (JStr []) \<and>
   generate \<lparr>llm = (\<lambda>_. LlmText []), open_error = (\<lambda>_. None), run = (\<lambda>_ _. SpawnFailed [])\<rparr>
     (Body (JObj [(''prompt'', JStr [])])) \<lparr>files = Map.empty, console = []\<rparr>
   = (resp_error_message ''Prompt is required'', \<lparr>files = Map.empty, console = []\<rparr>)"
  using generate_falsy_prompt[of "JObj [(''prompt'', JStr [])]" "JStr []"] by simp

text \<open>
  C10. When the generative service fails with message \<open>m\<close>, the answer is
  \<open>{"status": "error", "message": "error: m"}\<close>, no file is written, and the
  answer does not depend on the file system or the render command at all.
\<close>

theorem generate_llm_failure:
  assumes "py_get data ''prompt'' (JStr []) = Inr p" and "py_truthy p"
    and "llm e (llm_request p) = LlmRaise msg"
  shows "fst (generate e (Body data) w) = resp_error_message (''error: '' @ msg)
    \<and> files (snd (generate e (Body data) w)) = files w
    \<and> generate (e\<lparr>open_error := oe, run := r\<rparr>) (Body data) w = generate e (Body data) w"
  using assms by (simp add: generate_def call_llm_def print_line_def Let_def)

theorem generate_llm_failure_witness:
  "py_get (JObj [(''prompt'', JStr ''circle'')]) ''prompt'' (JStr []) = Inr (JStr ''circle'') \<and>
   py_truthy (JStr ''circle'') \<and>
   llm \<lparr>llm = (\<lambda>_. LlmRaise ''quota exceeded''), open_error = (\<lambda>_. None), run = (\<lambda>_ _. SpawnFailed [])\<rparr>
     (llm_request (JStr ''circle'')) = LlmRaise ''quota exceeded'' \<and>
   fst (generate \<lparr>llm = (\<lambda>_. LlmRaise ''quota exceeded''), open_error = (\<lambda>_. None),
          run = (\<lambda>_ _. SpawnFailed [])\<rparr> (Body (JObj [(''prompt'', JStr ''circle'')]))
          \<lparr>files = Map.empty, console = []\<rparr>)
   = resp_error_message ''error: quota exceeded''"
  using generate_llm_failure[of "JObj [(''prompt'', JStr ''circle'')]" "JStr ''circle''"
      "\<lparr>llm = (\<lambda>_. LlmRaise ''quota exceeded''), open_error = (\<lambda>_. None), run = (\<lambda>_ _. SpawnFailed [])\<rparr>"
      "''quota exceeded''" "\<lparr>files = Map.empty, console = []\<rparr>"]
  by simp

text \<open>
  C11. On a usable prompt and a reply whose extracted code has no sentinel,
  \<open>generate\<close> writes the code to \<open>video.py\<close>, runs
  \<open>manim -qm video.py <scene>\<close> on exactly those files with the resolved
  scene name, answers with the captured error stream when the exit code is
  not 0 and with the scene name and the captured output when it is, keeps the
  files the render leaves, and prints the prompt, the code and the scene name.
\<close>

theorem generate_render_outcome:
  assumes "py_get data ''prompt'' (JStr []) = Inr p" and "py_truthy p"
    and "llm e (llm_request p) = LlmText t"
    and "\<not> sublist ''error:'' (extract_code t)"
    and "open_error e source_file = None"
    and "run e ((files w)(source_file \<mapsto> extract_code t)) (manim_argv (resolve_scene_name (extract_code t)))
           = Exited rc out err fs"
  shows "generate e (Body data) w =
     ((if rc \<noteq> 0 then resp_error_details err else resp_success (resolve_scene_name (extract_code t)) out),
      \<lparr>files = fs, console = console w @ [LogPrompt p, LogLlmOutput (extract_code t),
                                         LogScene (resolve_scene_name (extract_code t))]\<rparr>)"
  using assms by (simp add: generate_def generate_render_def render_invoke_def call_llm_def print_line_def Let_def)

theorem generate_render_outcome_witness:
  "let e = \<lparr>llm = (\<lambda>_. LlmText (fence @ [LF] @ ''class A(Scene): pass'' @ fence)), open_error = (\<lambda>_. None),
             run = (\<lambda>fs _. Exited 1 [] ''Traceback'' fs)\<rparr>;
       w = \<lparr>files = Map.empty, console = []\<rparr>;
       code = ''class A(Scene): pass''
   in py_get (JObj [(''prompt'', JStr ''circle'')]) ''prompt'' (JStr []) = Inr (JStr ''circle'') \<and>
      py_truthy (JStr ''circle'') \<and>
      llm e (llm_request (JStr ''circle'')) = LlmText (fence @ [LF] @ code @ fence) \<and>
      extract_code (fence @ [LF] @ code @ fence) = code \<and>
      \<not> sublist ''error:'' code \<and> open_error e source_file = None \<and>
      run e ((files w)(source_file \<mapsto> code)) (manim_argv (resolve_scene_name code))
        = Exited 1 [] ''Traceback'' ((files w)(source_file \<mapsto> code)) \<and>
      fst (generate e (Body (JObj [(''prompt'', JStr ''circle'')])) w) = resp_error_details ''Traceback''"
  using generate_render_outcome[of "JObj [(''prompt'', JStr ''circle'')]" "JStr ''circle''"
        "\<lparr>llm = (\<lambda>_. LlmText (fence @ [LF] @ ''class A(Scene): pass'' @ fence)), open_error = (\<lambda>_. None),
          run = (\<lambda>fs _. Exited 1 [] ''Traceback'' fs)\<rparr>"
        "fence @ [LF] @ ''class A(Scene): pass'' @ fence" "\<lparr>files = Map.empty, console = []\<rparr>"]
  by (simp add: extract_code_def fence_search_def fence_at_def py_strip_def py_isspace_def
      sublist_Cons_right Let_def)

text \<open>
  C8. A successful answer always names a scene that is a non-empty run of
  word characters, so the name the client gets back can be passed to
  \<open>GET /video\<close> and denotes a file directly inside the render directory.
\<close>

theorem generate_success_scene_safe:
  assumes "fst (generate e b w) = resp_success n d"
  shows "word_run n"
proof -
  from assms obtain w' where "generate e b w = (resp_success n d, w')"
    by (metis prod.collapse)
  then obtain out where "n = resolve_scene_name out" using generate_success by blast
  then show ?thesis by (simp add: resolve_word_run)
qed

theorem generate_success_scene_safe_witness:
  "let e = \<lparr>llm = (\<lambda>_. LlmText (fence @ [LF] @ ''class A(Scene): pass'' @ fence)), open_error = (\<lambda>_. None),
             run = (\<lambda>fs _. Exited 0 ''done'' [] fs)\<rparr>;
       b = Body (JObj [(''prompt'', JStr ''circle'')]);
       w = \<lparr>files = Map.empty, console = []\<rparr>
   in fst (generate e b w) = resp_success ''A'' ''done'' \<and> word_run ''A''"
proof -
  have g: "fst (generate \<lparr>llm = (\<lambda>_. LlmText (fence @ [LF] @ ''class A(Scene): pass'' @ fence)),
              open_error = (\<lambda>_. None), run = (\<lambda>fs _. Exited 0 ''done'' [] fs)\<rparr>
            (Body (JObj [(''prompt'', JStr ''circle'')])) \<lparr>files = Map.empty, console = []\<rparr>)
         = resp_success ''A'' ''done''"
    by (simp add: generate_def generate_render_def render_invoke_def call_llm_def print_line_def
        extract_code_def fence_search_def fence_at_def py_strip_def py_isspace_def py_isword_def
        resolve_scene_name_def scene_search_def scene_at_def sublist_Cons_right Let_def)
  show ?thesis using generate_success_scene_safe[OF g] g by simp
qed

end
