(* ===== verification/Service_Process.thy ===== *)
theory Service_Process
  imports Http_Service
begin

text \<open>
  The service as a process: its start-up (\<^verbatim>\<open>src/main.py\<close>, lines 22--30),
  the requests it serves, and the interleaving of requests across worker
  processes that share the working directory.

  A \<open>generate\<close> request has two phases that touch the shared files:
  \<open>generate_start\<close>, everything up to writing \<^verbatim>\<open>video.py\<close> (lines 63--83),
  and \<open>generate_finish\<close>, the \<open>manim\<close> run on whatever \<^verbatim>\<open>video.py\<close> then
  holds and the answer (lines 85--93); \<open>generate_phases\<close> shows that the
  two phases run back to back are \<open>generate\<close>.  The step relation
  \<open>worker_step\<close> (spec section 5) lets the phases of different requests
  interleave, as separate worker processes do; within one process the
  handlers' only \<open>await\<close> is \<open>request.json()\<close>, so the interleaving needs
  several workers.
\<close>

subsection \<open>The two phases of a render\<close>

definition write_source :: "env \<Rightarrow> string \<Rightarrow> world \<Rightarrow> string option \<times> world" where
  "write_source e code w =
     (case open_error e source_file of
        Some err \<Rightarrow> (Some err, w)
      | None \<Rightarrow> (None, w\<lparr>files := (files w)(source_file \<mapsto> code)\<rparr>))"

definition run_manim :: "env \<Rightarrow> string \<Rightarrow> world \<Rightarrow> (string + int \<times> string \<times> string) \<times> world" where
  "run_manim e scene w =
     (case run e (files w) (manim_argv scene) of
        SpawnFailed err \<Rightarrow> (Inl err, w)
      | Exited rc out err fs \<Rightarrow> (Inr (rc, out, err), w\<lparr>files := fs\<rparr>))"

datatype gen_phase = Answered response | Rendering string

text \<open>Lines 63--83: up to and including the write of \<^verbatim>\<open>video.py\<close>.\<close>

definition generate_start :: "env \<Rightarrow> body \<Rightarrow> world \<Rightarrow> gen_phase \<times> world" where
  "generate_start e b w =
     (case b of
        BadJson err \<Rightarrow> (Answered (resp_failed err), w)
      | Body data \<Rightarrow>
          (case py_get data ''prompt'' (JStr []) of
             Inl err \<Rightarrow> (Answered (resp_failed err), w)
           | Inr prompt \<Rightarrow>
               (if \<not> py_truthy prompt then (Answered (resp_error_message ''Prompt is required''), w)
                else
                  (let w1 = print_line (LogPrompt prompt) w;
                       (out, logs) = call_llm (llm e) prompt;
                       w2 = print_line (LogLlmOutput out) (w1\<lparr>console := console w1 @ logs\<rparr>)
                   in if py_in ''error:'' out then (Answered (resp_error_message out), w2)
                      else
                        (let scene = resolve_scene_name out;
                             w3 = print_line (LogScene scene) w2
                         in case write_source e out w3 of
                              (Some err, w4) \<Rightarrow> (Answered (resp_failed err), w4)
                            | (None, w4) \<Rightarrow> (Rendering scene, w4))))))"

text \<open>Lines 85--93: run \<open>manim\<close> on the current \<^verbatim>\<open>video.py\<close> and answer.\<close>

definition generate_finish :: "env \<Rightarrow> string \<Rightarrow> world \<Rightarrow> response \<times> world" where
  "generate_finish e scene w =
     (case run_manim e scene w of
        (Inl err, w1) \<Rightarrow> (resp_failed err, w1)
      | (Inr (rc, sout, serr), w1) \<Rightarrow>
          (if rc \<noteq> 0 then (resp_error_details serr, w1) else (resp_success scene sout, w1)))"

definition generate_phased :: "env \<Rightarrow> body \<Rightarrow> world \<Rightarrow> response \<times> world" where
  "generate_phased e b w =
     (case generate_start e b w of
        (Answered r, w1) \<Rightarrow> (r, w1)
      | (Rendering scene, w1) \<Rightarrow> generate_finish e scene w1)"

subsection \<open>Start-up (lines 22--30)\<close>

text \<open>
  \<open>dotenv_values(".env")\<close> is the pairs of the file in order, a key
  without \<open>=\<close> mapped to \<open>None\<close>; the dictionary keeps the last value of a
  repeated key.  A missing, value-less or empty key raises \<open>ValueError\<close>
  while the module is imported, so the server never starts.
\<close>

type_synonym dotenv = "(string \<times> string option) list"

definition startup_error :: string where
  "startup_error = ''GEMINI_API_KEY not found in .env file.''"

definition startup :: "dotenv \<Rightarrow> string + string" where
  "startup cfg =
     (case map_of (rev cfg) ''GEMINI_API_KEY'' of
        Some (Some key) \<Rightarrow> (if key = [] then Inl startup_error else Inr key)
      | _ \<Rightarrow> Inl startup_error)"

subsection \<open>Requests and servers\<close>

datatype request = ReqGenerate body | ReqVideo "string option"

fun handle :: "env \<Rightarrow> request \<Rightarrow> world \<Rightarrow> response \<times> world" where
  "handle e (ReqGenerate b) w = generate e b w"
| "handle e (ReqVideo q) w = ai_video_retrieve q w"

text \<open>
  A server state: the shared world, the requests whose bodies have arrived
  (numbered), the \<open>generate\<close> requests that have written \<^verbatim>\<open>video.py\<close> and
  wait for their \<open>manim\<close> run, with their scene names, and the answers given
  so far, in order.
\<close>

record server =
  srv_world :: world
  inbox :: "(nat \<times> request) list"
  rendering :: "(nat \<times> string) list"
  answered :: "(nat \<times> response) list"

definition del_at :: "nat \<Rightarrow> 'a list \<Rightarrow> 'a list" where
  "del_at k xs = take k xs @ drop (Suc k) xs"

definition serve_one ::
  "env \<Rightarrow> nat \<times> request \<Rightarrow> world \<times> (nat \<times> response) list \<Rightarrow> world \<times> (nat \<times> response) list" where
  "serve_one e q st = (case handle e (snd q) (fst st) of (resp, w') \<Rightarrow> (w', snd st @ [(fst q, resp)]))"

definition serve_seq ::
  "env \<Rightarrow> (nat \<times> request) list \<Rightarrow> world \<times> (nat \<times> response) list \<Rightarrow> world \<times> (nat \<times> response) list" where
  "serve_seq e reqs st = fold (serve_one e) reqs st"

text \<open>Worker processes: the two phases of different requests interleave.\<close>

inductive worker_step :: "env \<Rightarrow> server \<Rightarrow> server \<Rightarrow> bool" where
  start_render:
    "k < length (inbox s) \<Longrightarrow> inbox s ! k = (i, ReqGenerate b) \<Longrightarrow>
     generate_start e b (srv_world s) = (Rendering scene, w') \<Longrightarrow>
     worker_step e s (s\<lparr>srv_world := w', inbox := del_at k (inbox s), rendering := rendering s @ [(i, scene)]\<rparr>)"
| start_answer:
    "k < length (inbox s) \<Longrightarrow> inbox s ! k = (i, ReqGenerate b) \<Longrightarrow>
     generate_start e b (srv_world s) = (Answered resp, w') \<Longrightarrow>
     worker_step e s (s\<lparr>srv_world := w', inbox := del_at k (inbox s), answered := answered s @ [(i, resp)]\<rparr>)"
| video:
    "k < length (inbox s) \<Longrightarrow> inbox s ! k = (i, ReqVideo q) \<Longrightarrow>
     ai_video_retrieve q (srv_world s) = (resp, w') \<Longrightarrow>
     worker_step e s (s\<lparr>srv_world := w', inbox := del_at k (inbox s), answered := answered s @ [(i, resp)]\<rparr>)"
| finish:
    "k < length (rendering s) \<Longrightarrow> rendering s ! k = (i, scene) \<Longrightarrow>
     generate_finish e scene (srv_world s) = (resp, w') \<Longrightarrow>
     worker_step e s (s\<lparr>srv_world := w', rendering := del_at k (rendering s), answered := answered s @ [(i, resp)]\<rparr>)"

text \<open>
  The whole process: start up, then serve the requests in the order of
  their arrival, with the service that the configured key opens.
\<close>

definition service ::
  "(string \<Rightarrow> env) \<Rightarrow> dotenv \<Rightarrow> (nat \<times> request) list \<Rightarrow> world \<Rightarrow> string + world \<times> (nat \<times> response) list" where
  "service mk cfg reqs w =
     (case startup cfg of Inl err \<Rightarrow> Inl err | Inr key \<Rightarrow> Inr (serve_seq (mk key) reqs (w, [])))"

subsection \<open>A scenario of two concurrent requests\<close>

text \<open>
  Two prompts whose replies declare the same scene \<open>S\<close> with different
  bodies, and a renderer that renders the named scene from the current
  \<^verbatim>\<open>video.py\<close> when it declares it, reporting the source it rendered on its
  output stream (which the service passes on as \<open>details\<close>).
\<close>

definition race_code :: "string \<Rightarrow> string" where
  "race_code p = ''class S(Scene): '' @ p"

definition race_env :: env where
  "race_env =
     \<lparr>llm = (\<lambda>req. case contents req of
               [_, (_, JStr p)] \<Rightarrow> LlmText (fence @ [LF] @ race_code p @ fence)
             | _ \<Rightarrow> LlmRaise ''unexpected request''),
      open_error = (\<lambda>_. None),
      run = (\<lambda>fs argv. case fs source_file of
               Some src \<Rightarrow>
                 (if py_in (''class '' @ argv ! 3 @ ''('') src
                  then Exited 0 src [] (case manim_output argv of Some p \<Rightarrow> fs(p \<mapsto> src) | None \<Rightarrow> fs)
                  else Exited 1 [] ''scene not found'' fs)
             | None \<Rightarrow> Exited 1 [] ''no source'' fs)\<rparr>"

definition race_req :: "string \<Rightarrow> request" where
  "race_req p = ReqGenerate (Body (JObj [(''prompt'', JStr p)]))"

definition race_init :: server where
  "race_init = \<lparr>srv_world = \<lparr>files = Map.empty, console = []\<rparr>,
                inbox = [(1, race_req ''A''), (2, race_req ''B'')], rendering = [], answered = []\<rparr>"

subsection \<open>Lemmas\<close>

lemma render_invoke_phases:
  "render_invoke e code scene w =
     (case write_source e code w of (Some err, w1) \<Rightarrow> (Inl err, w1) | (None, w1) \<Rightarrow> run_manim e scene w1)"
  by (simp add: render_invoke_def write_source_def run_manim_def Let_def split: option.splits)

lemma generate_phases: "generate_phased e b w = generate e b w"
  by (simp add: generate_phased_def generate_start_def generate_def generate_render_def
      generate_finish_def render_invoke_phases Let_def
      split: body.splits sum.splits prod.splits option.splits)

lemma race_llm: "p \<in> {''A'', ''B''} \<Longrightarrow> call_llm (llm race_env) (JStr p) = (race_code p, [])"
  by (auto, code_simp, code_simp)
lemma race_scene: "p \<in> {''A'', ''B''} \<Longrightarrow> resolve_scene_name (race_code p) = ''S'' \<and> \<not> py_in ''error:'' (race_code p)
   \<and> py_in ''class S('' (race_code p)"
  by (auto, code_simp+)
lemma race_env_fields [simp]:
  "open_error race_env f = None"
  "run race_env fs argv = (case fs source_file of
               Some src \<Rightarrow>
                 (if py_in (''class '' @ argv ! 3 @ ''('') src
                  then Exited 0 src [] (case manim_output argv of Some p \<Rightarrow> fs(p \<mapsto> src) | None \<Rightarrow> fs)
                  else Exited 1 [] ''scene not found'' fs)
             | None \<Rightarrow> Exited 1 [] ''no source'' fs)"
  by (simp_all add: race_env_def)
lemma race_generate:
  assumes "p \<in> {''A'', ''B''}"
  shows "fst (generate race_env (Body (JObj [(''prompt'', JStr p)])) w) = resp_success ''S'' (race_code p)"
proof -
  have "p \<noteq> []" using assms by auto
  with race_llm[OF assms] race_scene[OF assms] show ?thesis
    by (simp add: generate_def generate_render_def render_invoke_def Let_def print_line_def manim_argv_def
        del: py_in_iff_sublist)
qed

lemma race_start:
  assumes "p \<in> {''A'', ''B''}"
  shows "\<exists>w'. generate_start race_env (Body (JObj [(''prompt'', JStr p)])) w = (Rendering ''S'', w') \<and>
              files w' = (files w)(source_file \<mapsto> race_code p)"
proof -
  have "p \<noteq> []" using assms by auto
  with race_llm[OF assms] race_scene[OF assms] show ?thesis
    by (simp add: generate_start_def write_source_def Let_def print_line_def del: py_in_iff_sublist)
qed

lemma race_finish:
  assumes "p \<in> {''A'', ''B''}" and "files w source_file = Some (race_code p)"
  shows "fst (generate_finish race_env ''S'' w) = resp_success ''S'' (race_code p) \<and>
         files (snd (generate_finish race_env ''S'' w)) source_file = Some (race_code p)"
proof -
  have "manim_output (manim_argv ''S'') = Some (video_path ''S'')"
    by (simp add: manim_argv_def source_file_def quality_dirs_def script_stem_def video_path_def)
  moreover have "video_path ''S'' \<noteq> source_file" by (simp add: video_path_def source_file_def)
  moreover have "manim_argv ''S'' ! 3 = ''S''" by (simp add: manim_argv_def)
  ultimately show ?thesis
    using assms race_scene[OF assms(1)]
    by (simp add: generate_finish_def run_manim_def del: py_in_iff_sublist)
qed

subsection \<open>Properties of the process\<close>

text \<open>
  C21. Fail fast: when \<^verbatim>\<open>.env\<close> has no \<open>GEMINI_API_KEY\<close>, has it without a
  value, or has it empty, the process stops with the \<open>ValueError\<close> of line
  26 before serving any request, whatever the requests and the service.
\<close>

theorem service_fails_fast:
  assumes "map_of (rev cfg) ''GEMINI_API_KEY'' \<in> {None, Some None, Some (Some [])}"
  shows "service mk cfg reqs w = Inl startup_error"
  using assms by (auto simp: service_def startup_def)

theorem service_fails_fast_witness:
  "map_of (rev [(''GEMINI_API_KEY'', Some [])]) ''GEMINI_API_KEY'' \<in> {None, Some None, Some (Some [])} \<and>
   service (\<lambda>_. race_env) [(''GEMINI_API_KEY'', Some [])] [(1, race_req ''A'')] \<lparr>files = Map.empty, console = []\<rparr>
     = Inl startup_error"
  using service_fails_fast[of "[(''GEMINI_API_KEY'', Some [])]" "\<lambda>_. race_env" "[(1, race_req ''A'')]"] by simp

text \<open>
  C22. Across worker processes two \<open>generate\<close> requests race, as the
  specification warns: request 1 writes its source, request 2 overwrites
  \<^verbatim>\<open>video.py\<close> before request 1's \<open>manim\<close> run, and request 1 is answered
  with success and the render of request 2's source.
\<close>

theorem workers_race:
  "\<exists>s'. (worker_step race_env)\<^sup>*\<^sup>* race_init s' \<and> inbox s' = [] \<and> rendering s' = [] \<and>
        (1, resp_success ''S'' (race_code ''B'')) \<in> set (answered s')"
proof -
  let ?w0 = "srv_world race_init"
  obtain w1 where w1: "generate_start race_env (Body (JObj [(''prompt'', JStr ''A'')])) ?w0 = (Rendering ''S'', w1)"
    using race_start[of "''A''" ?w0] by auto
  obtain w2 where w2: "generate_start race_env (Body (JObj [(''prompt'', JStr ''B'')])) w1 = (Rendering ''S'', w2)"
      and f2: "files w2 source_file = Some (race_code ''B'')"
    using race_start[of "''B''" w1] by auto
  obtain r3 w3 where w3: "generate_finish race_env ''S'' w2 = (r3, w3)" by fastforce
  have r3: "r3 = resp_success ''S'' (race_code ''B'')" and f3: "files w3 source_file = Some (race_code ''B'')"
    using race_finish[of "''B''" w2] f2 w3 by simp_all
  obtain r4 w4 where w4: "generate_finish race_env ''S'' w3 = (r4, w4)" by fastforce
  let ?s1 = "race_init\<lparr>srv_world := w1, inbox := [(2, race_req ''B'')], rendering := [(1, ''S'')]\<rparr>"
  let ?s2 = "?s1\<lparr>srv_world := w2, inbox := [], rendering := [(1, ''S''), (2, ''S'')]\<rparr>"
  let ?s3 = "?s2\<lparr>srv_world := w3, rendering := [(2, ''S'')], answered := [(1, r3)]\<rparr>"
  let ?s4 = "?s3\<lparr>srv_world := w4, rendering := [], answered := [(1, r3), (2, r4)]\<rparr>"
  have "worker_step race_env race_init ?s1"
    using worker_step.start_render[of 0 race_init 1 "Body (JObj [(''prompt'', JStr ''A'')])" race_env "''S''" w1] w1
    by (simp add: race_init_def race_req_def del_at_def)
  moreover have "worker_step race_env ?s1 ?s2"
    using worker_step.start_render[of 0 ?s1 2 "Body (JObj [(''prompt'', JStr ''B'')])" race_env "''S''" w2] w2
    by (simp add: race_init_def race_req_def del_at_def)
  moreover have "worker_step race_env ?s2 ?s3"
    using worker_step.finish[of 0 ?s2 1 "''S''" race_env r3 w3] w3
    by (simp add: race_init_def del_at_def)
  moreover have "worker_step race_env ?s3 ?s4"
    using worker_step.finish[of 0 ?s3 2 "''S''" race_env r4 w4] w4
    by (simp add: race_init_def del_at_def)
  ultimately have "(worker_step race_env)\<^sup>*\<^sup>* race_init ?s4"
    by (meson rtranclp.rtrancl_into_rtrancl rtranclp.rtrancl_refl)
  with r3 show ?thesis by (intro exI[of _ ?s4]) simp
qed

end
