(* ===== verification/Video_Path.thy ===== *)
theory Video_Path
  imports Service_Process
begin

text \<open>
  Where \<open>GET /video\<close> looks (\<^verbatim>\<open>src/main.py\<close>, lines 101--106).  The
  handler builds \<open>media/videos/video/720p30/{scene_name}.mp4\<close> from the query
  parameter as it comes and hands it to \<open>os.path.exists\<close> and
  \<open>FileResponse\<close>, which leave its resolution to the operating system.
  Without symbolic links, POSIX resolves a relative path as
  \<open>os.path.normpath\<close> does: split at \<open>/\<close>, drop empty and \<open>.\<close> components,
  let \<open>..\<close> cancel the component before it, and keep the \<open>..\<close> that climb
  above the working directory.  \<open>path_segments\<close> and \<open>norm_path\<close> are that
  resolution; the lemmas show where the handler's path leads for a scene
  name that \<open>generate\<close> can report and for one that the query can carry.
\<close>

fun path_segments_acc :: "string \<Rightarrow> string \<Rightarrow> string list" where
  "path_segments_acc cur [] = [rev cur]"
| "path_segments_acc cur (c # cs) =
     (if c = CHR ''/'' then rev cur # path_segments_acc [] cs else path_segments_acc (c # cur) cs)"

definition path_segments :: "path \<Rightarrow> string list" where
  "path_segments p = path_segments_acc [] p"

definition norm_step :: "string \<Rightarrow> string list \<Rightarrow> string list" where
  "norm_step seg st =
     (if seg = [] \<or> seg = ''.'' then st
      else if seg = ''..'' then (case st of [] \<Rightarrow> [''..''] | x # xs \<Rightarrow> (if x = ''..'' then ''..'' # st else xs))
      else seg # st)"

definition norm_path :: "path \<Rightarrow> string list" where
  "norm_path p = rev (fold norm_step (path_segments p) [])"

subsection \<open>Lemmas\<close>

lemma path_segments_acc_append:
  "path_segments_acc cur (a @ CHR ''/'' # b) = path_segments_acc cur a @ path_segments_acc [] b"
  by (induction cur a rule: path_segments_acc.induct) simp_all

lemma path_segments_acc_plain: "CHR ''/'' \<notin> set a \<Longrightarrow> path_segments_acc cur a = [rev cur @ a]"
  by (induction cur a rule: path_segments_acc.induct) auto

lemma path_segments_append:
  "path_segments (a @ CHR ''/'' # b) = path_segments a @ path_segments b"
  by (simp add: path_segments_def path_segments_acc_append)

lemma path_segments_plain: "CHR ''/'' \<notin> set a \<Longrightarrow> path_segments a = [a]"
  by (simp add: path_segments_def path_segments_acc_plain)

lemma norm_step_up: "norm_step ''..'' (replicate j ''..'') = replicate (Suc j) ''..''"
  by (cases j) (simp_all add: norm_step_def)

lemma fold_norm_up:
  "fold norm_step (replicate k ''..'') (replicate j ''..'') = replicate (k + j) ''..''"
  by (induction k arbitrary: j) (simp_all add: norm_step_up del: fold_replicate, metis replicate_Suc add_Suc_right)

lemma path_segments_acc_up:
  "path_segments_acc [] (concat (replicate m ''../'') @ x) = replicate m ''..'' @ path_segments_acc [] x"
  by (induction m) simp_all

lemma video_path_segments:
  "path_segments (video_path n) = [''media'', ''videos'', ''video'', ''720p30''] @ path_segments (n @ ''.mp4'')"
  by (simp add: video_path_def path_segments_def)

lemma fold_norm_plain:
  "\<forall>seg\<in>set segs. seg \<noteq> [] \<and> seg \<noteq> ''.'' \<and> seg \<noteq> ''..'' \<Longrightarrow> fold norm_step segs st = rev segs @ st"
  by (induction segs arbitrary: st) (simp_all add: norm_step_def)

lemma mp4_plain: "seg @ ''.mp4'' \<noteq> [] \<and> seg @ ''.mp4'' \<noteq> ''.'' \<and> seg @ ''.mp4'' \<noteq> ''..''"
  by (cases seg) auto

lemma word_no_slash: "word_run n \<Longrightarrow> CHR ''/'' \<notin> set n"
  by (auto simp: word_run_def py_isword_def)

lemma norm_video_path_plain:
  "CHR ''/'' \<notin> set n \<Longrightarrow> norm_path (video_path n) = [''media'', ''videos'', ''video'', ''720p30'', n @ ''.mp4'']"
proof -
  assume "CHR ''/'' \<notin> set n"
  then have "path_segments (n @ ''.mp4'') = [n @ ''.mp4'']" by (intro path_segments_plain) auto
  then show ?thesis using mp4_plain[of n]
    by (simp add: norm_path_def video_path_segments fold_norm_plain del: fold_Cons)
qed

subsection \<open>Properties of the path\<close>

text \<open>
  C23. Every scene name that \<open>POST /generate\<close> reports resolves, in the
  path \<open>GET /video\<close> builds from it, to a file directly inside
  \<^verbatim>\<open>media/videos/video/720p30\<close>: a generated name is a word and cannot
  leave that directory.
\<close>

theorem generated_video_inside:
  assumes "fst (generate e b w) = resp_success n d"
  shows "norm_path (video_path n) = [''media'', ''videos'', ''video'', ''720p30'', n @ ''.mp4'']"
proof -
  from assms obtain w' where "generate e b w = (resp_success n d, w')" by (metis prod.collapse)
  then obtain out where "n = resolve_scene_name out" using generate_success by blast
  then have "CHR ''/'' \<notin> set n" using resolve_word_run word_no_slash by blast
  then show ?thesis by (rule norm_video_path_plain)
qed

theorem generated_video_inside_witness:
  "fst (generate race_env (Body (JObj [(''prompt'', JStr ''A'')])) \<lparr>files = Map.empty, console = []\<rparr>)
     = resp_success ''S'' (race_code ''A'') \<and>
   norm_path (video_path ''S'') = [''media'', ''videos'', ''video'', ''720p30'', ''S.mp4'']"
  using race_generate[of "''A''" "\<lparr>files = Map.empty, console = []\<rparr>"]
    generated_video_inside[of race_env "Body (JObj [(''prompt'', JStr ''A'')])" "\<lparr>files = Map.empty, console = []\<rparr>"
      "''S''" "race_code ''A''"]
  by simp

text \<open>
  C24. The query parameter is not checked: \<open>GET /video\<close> with
  \<open>scene_name = "../../../../t"\<close> followed by \<open>k\<close> further \<open>"../"\<close> serves
  \<open>t.mp4\<close> from \<open>k\<close> directories above the working directory, whenever that
  file exists.
\<close>

theorem video_query_escapes:
  assumes "CHR ''/'' \<notin> set t" and "q = concat (replicate (4 + k) ''../'') @ t"
    and "files w (video_path q) \<noteq> None"
  shows "fst (ai_video_retrieve (Some q) w) = FileResp (video_path q) ''video/mp4'' \<and>
         norm_path (video_path q) = replicate k ''..'' @ [t @ ''.mp4'']"
proof
  show "fst (ai_video_retrieve (Some q) w) = FileResp (video_path q) ''video/mp4''"
    using assms(3) by (simp add: ai_video_retrieve_def Let_def)
  have seg: "path_segments (t @ ''.mp4'') = [t @ ''.mp4'']"
    using assms(1) by (intro path_segments_plain) auto
  have "path_segments (video_path q) =
          [''media'', ''videos'', ''video'', ''720p30''] @ replicate (4 + k) ''..'' @ [t @ ''.mp4'']"
    using seg assms(2) by (simp add: video_path_def path_segments_def path_segments_acc_up del: replicate_Suc)
  moreover have "fold norm_step (replicate (4 + k) ''..'') [''720p30'', ''video'', ''videos'', ''media''] =
                 replicate k ''..''"
    using fold_norm_up[of k 0] by (simp add: norm_step_def numeral_eq_Suc del: fold_replicate)
  ultimately show "norm_path (video_path q) = replicate k ''..'' @ [t @ ''.mp4'']"
    using mp4_plain[of t] by (simp add: norm_path_def norm_step_def del: fold_replicate replicate_Suc)
qed

theorem video_query_escapes_witness:
  "CHR ''/'' \<notin> set ''secret'' \<and>
   files \<lparr>files = [video_path (concat (replicate (4 + 1) ''../'') @ ''secret'') \<mapsto> ''data''], console = []\<rparr>
     (video_path (concat (replicate (4 + 1) ''../'') @ ''secret'')) \<noteq> None \<and>
   fst (ai_video_retrieve (Some (concat (replicate (4 + 1) ''../'') @ ''secret''))
          \<lparr>files = [video_path (concat (replicate (4 + 1) ''../'') @ ''secret'') \<mapsto> ''data''], console = []\<rparr>)
     = FileResp (video_path (concat (replicate (4 + 1) ''../'') @ ''secret'')) ''video/mp4'' \<and>
   norm_path (video_path (concat (replicate (4 + 1) ''../'') @ ''secret'')) = [''..'', ''secret.mp4'']"
  using video_query_escapes[of "''secret''" "concat (replicate (4 + 1) ''../'') @ ''secret''" 1
      "\<lparr>files = [video_path (concat (replicate (4 + 1) ''../'') @ ''secret'') \<mapsto> ''data''], console = []\<rparr>"]
  by (simp del: replicate_Suc) (simp add: replicate_Suc)

end
