(* ===== verification/Service_Answers.thy ===== *)
theory Service_Answers
  imports Service_Process
begin

text \<open>
  The answers of the two endpoints as a whole: the response schema of the
  specification that every answer meets, and the error path of a request
  body that is not a JSON object.
\<close>

text \<open>
  The answers of \<^verbatim>\<open>src/main.py\<close>: a JSON object whose first key is
  \<open>status\<close> with one of the three values the handlers use, or the video as
  a file response of type \<open>video/mp4\<close>.
\<close>

fun response_ok :: "response \<Rightarrow> bool" where
  "response_ok (JsonResp (JObj ((k, JStr st) # _))) = (k = ''status'' \<and> st \<in> {''success'', ''error'', ''failed''})"
| "response_ok (FileResp p mt) = (mt = ''video/mp4'')"
| "response_ok _ = False"

subsection \<open>Lemmas\<close>

lemma response_ok_resps [simp]:
  "response_ok (resp_failed m)" "response_ok (resp_error_message m)"
  "response_ok (resp_error_details m)" "response_ok (resp_success n d)"
  by (simp_all add: resp_failed_def resp_error_message_def resp_error_details_def resp_success_def)

lemma response_ok_generate_render: "response_ok (fst (generate_render e out w))"
  by (simp add: generate_render_def Let_def split: prod.splits sum.splits)

subsection \<open>Properties of the answers\<close>

text \<open>
  C25. Response schema: every answer of either endpoint, on every branch
  and for every behaviour of the collaborators, is a JSON object whose first
  key is \<open>status\<close> with value \<open>success\<close>, \<open>error\<close> or \<open>failed\<close>, or the video
  served as \<open>video/mp4\<close>.
\<close>

theorem handle_response_ok: "response_ok (fst (handle e r w))"
proof (cases r)
  case (ReqGenerate b)
  then show ?thesis
    by (simp add: generate_def response_ok_generate_render Let_def
        split: body.splits sum.splits prod.splits)
next
  case (ReqVideo q)
  then show ?thesis by (simp add: ai_video_retrieve_def Let_def)
qed

text \<open>
  C28. Error path of the request body (lines 63--64, caught at line 95): a
  body that is not JSON is answered \<open>failed\<close> with the decoder's message, and
  a JSON body that is not an object is answered \<open>failed\<close> with Python's
  \<open>'T' object has no attribute 'get'\<close>; in both cases before any call to
  the model, with the world unchanged.
\<close>

theorem generate_bad_body:
  "generate e (BadJson m) w = (resp_failed m, w) \<and>
   ((\<forall>kvs. v \<noteq> JObj kvs) \<longrightarrow>
      generate e (Body v) w =
        (resp_failed ([APOS] @ py_type_name v @ [APOS] @ '' object has no attribute '' @ [APOS] @ ''get'' @ [APOS]), w))"
  by (cases v) (simp_all add: generate_def)

theorem generate_bad_body_witness:
  "(\<forall>kvs. JList [JStr ''draw a circle''] \<noteq> JObj kvs) \<and>
   generate race_env (Body (JList [JStr ''draw a circle''])) \<lparr>files = Map.empty, console = []\<rparr> =
     (resp_failed ([APOS] @ ''list'' @ [APOS] @ '' object has no attribute '' @ [APOS] @ ''get'' @ [APOS]), \<lparr>files = Map.empty, console = []\<rparr>)"
  using generate_bad_body[of race_env "''x''" "\<lparr>files = Map.empty, console = []\<rparr>" "JList [JStr ''draw a circle'']"]
  by simp

end
