(* ===== verification/Manim_Scene.thy ===== *)
theory Manim_Scene
  imports "HOL-Library.Multiset"
begin

text \<open>
  The checked-in scene \<^verbatim>\<open>src/video.py\<close>, \<open>BubbleSortVisualization.construct\<close>:
  a bubble sort of \<open>arr\<close> that moves one bar per element and relabels the
  bars it swaps.  The scene is modelled as explicit state passing over a
  \<open>scene_state\<close>: the Python variables \<open>arr\<close> and \<open>bars\<close> (bar objects are
  numbered by creation, so \<open>bars\<close> is a list of object numbers), the
  attributes the scene changes on its objects (the height and horizontal
  position and colour of each bar, the number and position of each label),
  and the list of \<open>self.play\<close> and \<open>self.wait\<close> calls made so far.
  Horizontal positions are doubled Manim units, so that the centred row of
  bars that \<open>arrange(RIGHT, buff=0.5)\<close> builds from bars of width 0.5 has
  integral coordinates: bar \<open>k\<close> of \<open>n\<close> is centred at \<open>2k - (n - 1)\<close>.
  Each \<open>for\<close> loop over a \<open>range\<close> is a \<open>fold\<close> over \<open>[0..<m]\<close>.
\<close>

datatype color = Blue | Red | Green

datatype mobj =
    Title
  | PassText nat
  | ComparingText int int
  | BarObj nat
  | LabelObj nat
  | BarsGroup
  | LabelsGroup
  | SortedText
  | ConclusionText

datatype anim =
    FadeIn "mobj list"
  | FadeOut "mobj list"
  | Write mobj
  | Transform mobj mobj
  | SetColor nat color
  | MoveTo nat int

datatype scene_event = Play "anim list" | Wait nat

record scene_state =
  arr :: "int list"
  bars :: "nat list"
  bar_height :: "nat \<Rightarrow> int"
  bar_x :: "nat \<Rightarrow> int"
  bar_color :: "nat \<Rightarrow> color"
  label_text :: "nat \<Rightarrow> int"
  label_x :: "nat \<Rightarrow> int"
  events :: "scene_event list"

definition emit :: "scene_event \<Rightarrow> scene_state \<Rightarrow> scene_state" where
  "emit ev s = s\<lparr>events := events s @ [ev]\<rparr>"

subsection \<open>The comparison step (lines 35--62)\<close>

text \<open>
  One iteration of the inner loop at index \<open>j\<close> of pass \<open>i\<close>: show the
  comparison, colour both bars red, wait, swap the elements, the bars' places
  and the bar objects if they are out of order and then relabel both
  positions, and colour the two bars blue again.
\<close>

definition swap_step :: "nat \<Rightarrow> scene_state \<Rightarrow> scene_state" where
  "swap_step j s =
     (let a = arr s; b1 = bars s ! j; b2 = bars s ! Suc j;
          a' = a[j := a ! Suc j, Suc j := a ! j];
          temp_pos = bar_x s b1;
          s1 = emit (Play [MoveTo b1 (bar_x s b2), MoveTo b2 temp_pos])
                 (s\<lparr>arr := a', bar_x := (bar_x s)(b1 := bar_x s b2, b2 := temp_pos)\<rparr>);
          bs = (bars s)[j := b2, Suc j := b1];
          s2 = s1\<lparr>bars := bs\<rparr>;
          s3 = s2\<lparr>label_text := (label_text s2)(j := a' ! j, Suc j := a' ! Suc j),
                  label_x := (label_x s2)(j := bar_x s2 (bs ! j), Suc j := bar_x s2 (bs ! Suc j))\<rparr>
      in emit (Play [FadeIn [LabelObj j], FadeIn [LabelObj (Suc j)]]) s3)"

definition compare_step :: "nat \<Rightarrow> nat \<Rightarrow> scene_state \<Rightarrow> scene_state" where
  "compare_step i j s =
     (let a = arr s;
          s1 = emit (Play [Transform (PassText i) (ComparingText (a ! j) (a ! Suc j))]) s;
          b1 = bars s ! j; b2 = bars s ! Suc j;
          s2 = emit (Wait 500) (emit (Play [SetColor b1 Red, SetColor b2 Red])
                 (s1\<lparr>bar_color := (bar_color s1)(b1 := Red, b2 := Red)\<rparr>));
          s3 = (if a ! j > a ! Suc j then swap_step j s2 else s2);
          s4 = emit (Play [SetColor b1 Blue, SetColor b2 Blue])
                 (s3\<lparr>bar_color := (bar_color s3)(b1 := Blue, b2 := Blue)\<rparr>)
      in emit (Wait 500) s4)"

subsection \<open>The passes (lines 30--63)\<close>

text \<open>One iteration of the outer loop; \<open>n = len(arr)\<close> is read once, before it.\<close>

definition pass_step :: "nat \<Rightarrow> nat \<Rightarrow> scene_state \<Rightarrow> scene_state" where
  "pass_step n i s =
     (let s1 = emit (Play [Write (PassText i)]) s;
          s2 = fold (compare_step i) [0..<n - i - 1] s1
      in emit (Play [FadeOut [PassText i]]) s2)"

definition sort_loop :: "scene_state \<Rightarrow> scene_state" where
  "sort_loop s = (let n = length (arr s) in fold (pass_step n) [0..<n - 1] s)"

subsection \<open>The algorithm on the list alone\<close>

text \<open>
  What the loops do to \<open>arr\<close>, without the drawing: the reference bubble
  sort that the scene is proved to refine.
\<close>

definition cmp_swap :: "nat \<Rightarrow> int list \<Rightarrow> int list" where
  "cmp_swap j a = (if a ! j > a ! Suc j then a[j := a ! Suc j, Suc j := a ! j] else a)"

definition bubble_pass :: "nat \<Rightarrow> int list \<Rightarrow> int list" where
  "bubble_pass m a = fold cmp_swap [0..<m] a"

definition bubble_sort :: "int list \<Rightarrow> int list" where
  "bubble_sort a = (let n = length a in fold (\<lambda>i. bubble_pass (n - i - 1)) [0..<n - 1] a)"

subsection \<open>The whole scene (lines 4--76)\<close>

definition slot_x :: "nat \<Rightarrow> nat \<Rightarrow> int" where
  "slot_x n k = 2 * int k - (int n - 1)"

text \<open>
  Lines 5--27: the title, then one bar (height \<open>val\<close>, blue, at the origin)
  and one label above it per element, then the row of bars centred at the
  origin; the labels stay where \<open>next_to\<close> put them, above the origin.
\<close>

definition scene_setup :: "int list \<Rightarrow> scene_state" where
  "scene_setup a =
     \<lparr>arr = a, bars = [0..<length a], bar_height = (\<lambda>k. a ! k),
      bar_x = (\<lambda>k. if k < length a then slot_x (length a) k else 0),
      bar_color = (\<lambda>_. Blue), label_text = (\<lambda>k. a ! k), label_x = (\<lambda>_. 0),
      events = [Play [FadeIn [Title]], Wait 2000, Play [FadeOut [Title]],
                Play [FadeIn [BarsGroup, LabelsGroup]], Wait 1000]\<rparr>"

definition scene_finish :: "scene_state \<Rightarrow> scene_state" where
  "scene_finish s =
     fold emit [Play (map (\<lambda>b. SetColor b Green) (bars s)), Play [Write SortedText], Wait 2000,
                Play [FadeOut [BarsGroup, LabelsGroup, SortedText]], Play [Write ConclusionText], Wait 2000,
                Play [FadeOut [ConclusionText]]]
       (s\<lparr>bar_color := (\<lambda>_. Green)\<rparr>)"

definition construct :: "int list \<Rightarrow> scene_state" where
  "construct a = scene_finish (sort_loop (scene_setup a))"

definition video_arr :: "int list" where
  "video_arr = [5, 2, 4, 6, 1, 3]"

subsection \<open>Observations of the scene\<close>

text \<open>
  \<open>sorted_tail t a\<close>: the elements from position \<open>t\<close> on are sorted and
  none is below an element before \<open>t\<close>, the invariant of the outer loop.
  \<open>scene_inv n s\<close>: the picture agrees with \<open>arr\<close>: the \<open>k\<close>-th bar of
  \<open>bars\<close> has height \<open>arr[k]\<close> and stands in slot \<open>k\<close> of the row, the
  \<open>k\<close>-th label shows \<open>arr[k]\<close> and stands either above slot \<open>k\<close> (where
  a swap put it) or where it was created, above the origin.
\<close>

definition sorted_tail :: "nat \<Rightarrow> int list \<Rightarrow> bool" where
  "sorted_tail t a \<longleftrightarrow> sorted (drop t a) \<and> (\<forall>x\<in>set (take t a). \<forall>y\<in>set (drop t a). x \<le> y)"

definition scene_inv :: "nat \<Rightarrow> scene_state \<Rightarrow> bool" where
  "scene_inv n s \<longleftrightarrow> length (arr s) = n \<and> length (bars s) = n \<and> distinct (bars s) \<and>
     (\<forall>k<n. bar_height s (bars s ! k) = arr s ! k \<and> bar_x s (bars s ! k) = slot_x n k
            \<and> label_text s k = arr s ! k \<and> (label_x s k = 0 \<or> label_x s k = slot_x n k))"

text \<open>
  What the events of a scene add up to: the comparisons announced, the
  number of \<open>self.play\<close> calls and the milliseconds of \<open>self.wait\<close>.
\<close>

fun is_comparison :: "scene_event \<Rightarrow> bool" where
  "is_comparison (Play [Transform (PassText _) (ComparingText _ _)]) = True"
| "is_comparison _ = False"

definition comparisons :: "scene_event list \<Rightarrow> nat" where
  "comparisons evs = length (filter is_comparison evs)"

definition play_count :: "scene_event list \<Rightarrow> nat" where
  "play_count evs = length (filter (\<lambda>e. case e of Play _ \<Rightarrow> True | Wait _ \<Rightarrow> False) evs)"
definition wait_ms :: "scene_event list \<Rightarrow> nat" where
  "wait_ms evs = sum_list (map (\<lambda>e. case e of Wait t \<Rightarrow> t | Play _ \<Rightarrow> 0) evs)"
subsection \<open>The reference sort is a sorting algorithm\<close>


lemma length_cmp_swap [simp]: "length (cmp_swap j a) = length a"
  by (simp add: cmp_swap_def)

lemma mset_cmp_swap: "Suc j < length a \<Longrightarrow> mset (cmp_swap j a) = mset a"
  by (simp add: cmp_swap_def mset_swap)

lemma cmp_swap_nth_other: "k \<noteq> j \<Longrightarrow> k \<noteq> Suc j \<Longrightarrow> cmp_swap j a ! k = a ! k"
  by (simp add: cmp_swap_def)

lemma bubble_pass_Suc: "bubble_pass (Suc m) a = cmp_swap m (bubble_pass m a)"
  by (simp add: bubble_pass_def)

lemma length_bubble_pass [simp]: "length (bubble_pass m a) = length a"
  by (induction m) (simp_all add: bubble_pass_Suc, simp add: bubble_pass_def)

lemma mset_bubble_pass: "m < length a \<Longrightarrow> mset (bubble_pass m a) = mset a"
  by (induction m) (auto simp: bubble_pass_Suc mset_cmp_swap, simp add: bubble_pass_def)

text \<open>A pass leaves the positions after \<open>m\<close> alone and brings the largest of the first \<open>m + 1\<close> to \<open>m\<close>.\<close>

lemma bubble_pass_suffix: "m < length a \<Longrightarrow> k > m \<Longrightarrow> bubble_pass m a ! k = a ! k"
  by (induction m) (auto simp: bubble_pass_Suc cmp_swap_nth_other, simp add: bubble_pass_def)

lemma bubble_pass_max: "m < length a \<Longrightarrow> k \<le> m \<Longrightarrow> bubble_pass m a ! k \<le> bubble_pass m a ! m"
proof (induction m arbitrary: k)
  case 0
  then show ?case by simp
next
  case (Suc m)
  let ?b = "bubble_pass m a"
  have IH: "\<And>k. k \<le> m \<Longrightarrow> ?b ! k \<le> ?b ! m" using Suc by simp
  have len: "Suc m < length ?b" using Suc.prems by simp
  show ?case
  proof (cases "?b ! m > ?b ! Suc m")
    case True
    then have eq: "bubble_pass (Suc m) a = ?b[m := ?b ! Suc m, Suc m := ?b ! m]"
      by (simp add: bubble_pass_Suc cmp_swap_def)
    show ?thesis
    proof (cases "k \<le> m")
      case True
      with IH len \<open>?b ! m > ?b ! Suc m\<close> show ?thesis
        by (cases "k = m") (auto simp: eq nth_list_update)
    next
      case False
      with Suc.prems have "k = Suc m" by simp
      with len show ?thesis by (simp add: eq)
    qed
  next
    case False
    then have eq: "bubble_pass (Suc m) a = ?b" by (simp add: bubble_pass_Suc cmp_swap_def)
    show ?thesis
    proof (cases "k \<le> m")
      case True
      with IH False show ?thesis by (simp add: eq) (meson order.trans not_less)
    next
      case False
      with Suc.prems have "k = Suc m" by simp
      then show ?thesis by (simp add: eq)
    qed
  qed
qed
lemma bubble_pass_drop: "m < length a \<Longrightarrow> drop (Suc m) (bubble_pass m a) = drop (Suc m) a"
  by (rule nth_equalityI) (auto simp: bubble_pass_suffix)

lemma bubble_pass_sorted_tail:
  assumes m: "m < length a" and inv: "sorted_tail (Suc m) a"
  shows "sorted_tail m (bubble_pass m a)"
proof -
  let ?b = "bubble_pass m a"
  have dr: "drop (Suc m) ?b = drop (Suc m) a" using m by (rule bubble_pass_drop)
  have "mset (take (Suc m) ?b) + mset (drop (Suc m) ?b) = mset (take (Suc m) a) + mset (drop (Suc m) a)"
    using mset_bubble_pass[OF m] by (metis append_take_drop_id mset_append)
  then have "mset (take (Suc m) ?b) = mset (take (Suc m) a)" by (simp add: dr)
  then have st: "set (take (Suc m) ?b) = set (take (Suc m) a)" by (metis set_mset_mset)
  have low: "x \<le> y" if "x \<in> set (take (Suc m) ?b)" "y \<in> set (drop (Suc m) ?b)" for x y
    using inv that unfolding sorted_tail_def st dr by blast
  have bm: "?b ! m \<in> set (take (Suc m) ?b)" using m by (simp add: in_set_conv_nth) (metis lessI nth_take)
  have dm: "drop m ?b = ?b ! m # drop (Suc m) ?b" using m by (simp add: Cons_nth_drop_Suc)
  have "sorted (drop m ?b)"
    using inv low[OF bm] unfolding dm sorted_tail_def dr by simp
  moreover have "x \<le> y" if x: "x \<in> set (take m ?b)" and y: "y \<in> set (drop m ?b)" for x y
  proof -
    obtain k where k: "k < m" "x = ?b ! k" using x m by (auto simp: in_set_conv_nth)
    then have xm: "x \<le> ?b ! m" using bubble_pass_max[OF m, of k] by simp
    have xt: "x \<in> set (take (Suc m) ?b)" using k m by (auto simp: in_set_conv_nth intro!: exI[of _ k])
    from y dm have "y = ?b ! m \<or> y \<in> set (drop (Suc m) ?b)" by simp
    then show ?thesis using xm low[OF xt] by blast
  qed
  ultimately show ?thesis by (simp add: sorted_tail_def)
qed

lemma bubble_passes_sorted_tail:
  "k \<le> length a - 1 \<Longrightarrow>
     sorted_tail (length a - k) (fold (\<lambda>i. bubble_pass (length a - i - 1)) [0..<k] a)
     \<and> length (fold (\<lambda>i. bubble_pass (length a - i - 1)) [0..<k] a) = length a"
proof (induction k)
  case 0
  then show ?case by (simp add: sorted_tail_def)
next
  case (Suc k)
  let ?f = "fold (\<lambda>i. bubble_pass (length a - i - 1)) [0..<k] a"
  have IH: "sorted_tail (length a - k) ?f" "length ?f = length a" using Suc by simp_all
  have eq: "length a - k = Suc (length a - Suc k)" using Suc.prems by simp
  have "sorted_tail (length a - Suc k) (bubble_pass (length a - k - 1) ?f)"
    using bubble_pass_sorted_tail[of "length a - Suc k" ?f] IH Suc.prems eq by simp
  then show ?case using IH by simp
qed

lemma sorted_bubble_sort: "sorted (bubble_sort a)"
proof (cases a)
  case Nil
  then show ?thesis by (simp add: bubble_sort_def)
next
  case (Cons x xs)
  let ?b = "bubble_sort a"
  have inv: "sorted_tail 1 ?b" and len: "length ?b = length a"
    using bubble_passes_sorted_tail[of "length a - 1" a] Cons by (simp_all add: bubble_sort_def)
  from len Cons obtain y ys where b: "?b = y # ys" by (cases ?b) auto
  from inv show ?thesis unfolding b sorted_tail_def by simp
qed

lemma mset_bubble_sort: "mset (bubble_sort a) = mset a"
proof (cases "a = []")
  case True
  then show ?thesis by (simp add: bubble_sort_def)
next
  case False
  have "mset (fold (\<lambda>i. bubble_pass (length a - i - 1)) [0..<k] a) = mset a \<and>
        length (fold (\<lambda>i. bubble_pass (length a - i - 1)) [0..<k] a) = length a" for k
  proof (induction k)
    case (Suc k)
    with False show ?case by (simp add: mset_bubble_pass)
  qed simp
  then show ?thesis by (simp add: bubble_sort_def Let_def)
qed
subsection \<open>The scene refines the reference sort\<close>


lemma arr_compare_step: "arr (compare_step i j s) = cmp_swap j (arr s)"
  by (simp add: compare_step_def swap_step_def emit_def cmp_swap_def Let_def)

lemma arr_fold_compare: "arr (fold (compare_step i) js s) = fold cmp_swap js (arr s)"
  by (induction js arbitrary: s) (simp_all add: arr_compare_step)

lemma arr_pass_step: "arr (pass_step n i s) = bubble_pass (n - i - 1) (arr s)"
  by (simp add: pass_step_def emit_def arr_fold_compare bubble_pass_def Let_def)

lemma arr_sort_loop: "arr (sort_loop s) = bubble_sort (arr s)"
proof -
  have "arr (fold (pass_step n) is s) = fold (\<lambda>i. bubble_pass (n - i - 1)) is (arr s)" for n "is" s
    by (induction "is" arbitrary: s) (simp_all add: arr_pass_step)
  then show ?thesis by (simp add: sort_loop_def bubble_sort_def Let_def)
qed

lemma scene_finish_fields [simp]:
  "arr (scene_finish s) = arr s" "bars (scene_finish s) = bars s"
  "bar_height (scene_finish s) = bar_height s" "bar_x (scene_finish s) = bar_x s"
  "bar_color (scene_finish s) = (\<lambda>_. Green)"
  "label_text (scene_finish s) = label_text s" "label_x (scene_finish s) = label_x s"
  by (simp_all add: scene_finish_def emit_def)

lemma arr_scene_setup [simp]: "arr (scene_setup a) = a"
  by (simp add: scene_setup_def)

lemma scene_inv_emit [simp]: "scene_inv n (emit ev s) = scene_inv n s"
  by (simp add: scene_inv_def emit_def)

lemma scene_inv_swap_step:
  assumes inv: "scene_inv n s" and j: "Suc j < n"
  shows "scene_inv n (swap_step j s)"
proof -
  let ?b1 = "bars s ! j" and ?b2 = "bars s ! Suc j"
  have ne: "?b1 \<noteq> ?b2" using inv j by (simp add: scene_inv_def nth_eq_iff_index_eq)
  have other: "bars s ! k \<noteq> ?b1 \<and> bars s ! k \<noteq> ?b2" if "k < n" "k \<noteq> j" "k \<noteq> Suc j" for k
    using inv j that by (simp add: scene_inv_def nth_eq_iff_index_eq)
  let ?t = "swap_step j s"
  have pt: "bar_height ?t (bars ?t ! k) = arr ?t ! k \<and> bar_x ?t (bars ?t ! k) = slot_x n k \<and>
      label_text ?t k = arr ?t ! k \<and> (label_x ?t k = 0 \<or> label_x ?t k = slot_x n k)" if k: "k < n" for k
  proof -
    consider "k = j" | "k = Suc j" | "k \<noteq> j" "k \<noteq> Suc j" by blast
    then show ?thesis
    proof cases
      case 1
      with inv j ne show ?thesis by (simp add: swap_step_def emit_def scene_inv_def Let_def)
    next
      case 2
      with inv j ne show ?thesis by (simp add: swap_step_def emit_def scene_inv_def Let_def)
    next
      case 3
      with inv j k other[OF k] show ?thesis by (simp add: swap_step_def emit_def scene_inv_def Let_def)
    qed
  qed
  moreover have "length (arr ?t) = n" "length (bars ?t) = n"
    using inv by (simp_all add: swap_step_def emit_def scene_inv_def Let_def)
  moreover have "distinct (bars ?t)"
    using inv j by (simp add: swap_step_def emit_def scene_inv_def Let_def distinct_swap)
  ultimately show ?thesis unfolding scene_inv_def by blast
qed
subsection \<open>The picture follows the array\<close>


lemma scene_inv_compare_step:
  assumes inv: "scene_inv n s" and j: "Suc j < n"
  shows "scene_inv n (compare_step i j s)"
proof -
  have col: "scene_inv n (s'\<lparr>bar_color := c\<rparr>) = scene_inv n s'" for s' c
    by (simp add: scene_inv_def)
  show ?thesis
    using inv scene_inv_swap_step[OF _ j]
    by (simp add: compare_step_def Let_def col)
qed

lemma scene_inv_fold_compare:
  "scene_inv n s \<Longrightarrow> \<forall>j\<in>set js. Suc j < n \<Longrightarrow> scene_inv n (fold (compare_step i) js s)"
  by (induction js arbitrary: s) (simp_all add: scene_inv_compare_step)

lemma scene_inv_pass_step: "scene_inv n s \<Longrightarrow> scene_inv n (pass_step n i s)"
  by (auto simp: pass_step_def Let_def intro!: scene_inv_fold_compare)

lemma scene_inv_sort_loop: "scene_inv n s \<Longrightarrow> scene_inv n (sort_loop s)"
proof -
  assume inv: "scene_inv n s"
  then have len: "length (arr s) = n" by (simp add: scene_inv_def)
  have "scene_inv n (fold (pass_step n) is s')" if "scene_inv n s'" for "is" s'
    using that by (induction "is" arbitrary: s') (simp_all add: scene_inv_pass_step)
  with inv len show ?thesis by (simp add: sort_loop_def Let_def)
qed

lemma scene_inv_setup: "scene_inv (length a) (scene_setup a)"
  by (simp add: scene_inv_def scene_setup_def)

lemma scene_inv_finish: "scene_inv n s \<Longrightarrow> scene_inv n (scene_finish s)"
proof -
  assume inv: "scene_inv n s"
  have "scene_inv n (fold emit evs s')" if "scene_inv n s'" for evs s'
    using that by (induction evs arbitrary: s') simp_all
  moreover have "scene_inv n (s\<lparr>bar_color := c\<rparr>)" for c using inv by (simp add: scene_inv_def)
  ultimately show ?thesis by (simp add: scene_finish_def)
qed


text \<open>Sorted input: no swap, so no label ever moves.\<close>

lemma compare_step_sorted:
  assumes "sorted (arr s)" and "Suc j < length (arr s)"
  shows "arr (compare_step i j s) = arr s \<and> label_x (compare_step i j s) = label_x s"
proof -
  have "\<not> arr s ! j > arr s ! Suc j"
    using sorted_nth_mono[OF assms(1), of j "Suc j"] assms(2) by simp
  then show ?thesis by (simp add: compare_step_def emit_def Let_def)
qed

lemma fold_compare_sorted:
  "sorted (arr s) \<Longrightarrow> \<forall>j\<in>set js. Suc j < length (arr s) \<Longrightarrow>
     arr (fold (compare_step i) js s) = arr s \<and> label_x (fold (compare_step i) js s) = label_x s"
  by (induction js arbitrary: s) (simp_all add: compare_step_sorted)

lemma sort_loop_sorted_labels:
  assumes "sorted (arr s)"
  shows "label_x (sort_loop s) = label_x s"
proof -
  have "arr (fold (pass_step (length (arr s))) is s') = arr s' \<and> label_x (fold (pass_step (length (arr s))) is s') = label_x s'"
    if "sorted (arr s')" "length (arr s') = length (arr s)" for "is" s'
    using that
  proof (induction "is" arbitrary: s')
    case (Cons i "is")
    let ?p = "pass_step (length (arr s)) i s'"
    have bnd: "\<forall>j\<in>set [0..<length (arr s) - i - 1]. Suc j < length (arr (emit (Play [Write (PassText i)]) s'))"
      using Cons.prems by (auto simp: emit_def)
    have "arr ?p = arr s' \<and> label_x ?p = label_x s'"
      using Cons.prems fold_compare_sorted[OF _ bnd]
      by (simp add: pass_step_def emit_def Let_def)
    with Cons.IH[of ?p] Cons.prems show ?case by simp
  qed simp
  with assms show ?thesis by (simp add: sort_loop_def Let_def)
qed

subsection \<open>Counting the events\<close>

lemma comparisons_Nil [simp]: "comparisons [] = 0"
  by (simp add: comparisons_def)

lemma comparisons_Cons [simp]:
  "comparisons (x # xs) = (if is_comparison x then 1 else 0) + comparisons xs"
  by (simp add: comparisons_def)

lemma comparisons_append [simp]: "comparisons (xs @ ys) = comparisons xs + comparisons ys"
  by (simp add: comparisons_def)

lemma comparisons_compare_step: "comparisons (events (compare_step i j s)) = Suc (comparisons (events s))"
  by (simp add: compare_step_def swap_step_def emit_def Let_def)

lemma comparisons_fold_compare:
  "comparisons (events (fold (compare_step i) js s)) = comparisons (events s) + length js"
  by (induction js arbitrary: s) (simp_all add: comparisons_compare_step)

lemma comparisons_pass_step:
  "comparisons (events (pass_step n i s)) = comparisons (events s) + (n - Suc i)"
  by (simp add: pass_step_def emit_def Let_def comparisons_fold_compare)

lemma sum_countdown: "sum_list (map (\<lambda>i. m - i) [0..<m]) = m * Suc m div 2"
proof (induction m)
  case (Suc m)
  have "sum_list (map (\<lambda>i. Suc m - i) [0..<m]) = sum_list (map (\<lambda>i. Suc (m - i)) [0..<m])"
    by (rule arg_cong[where f = sum_list], rule map_cong) (auto simp: Suc_diff_le)
  also have "\<dots> = sum_list (map (\<lambda>i. m - i) [0..<m]) + m" by (simp add: sum_list_Suc)
  finally have "sum_list (map (\<lambda>i. Suc m - i) [0..<m]) = sum_list (map (\<lambda>i. m - i) [0..<m]) + m" .
  with Suc show ?case by simp
qed simp

lemma pass_lengths_sum: "sum_list (map (\<lambda>i. n - Suc i) [0..<n - 1]) = n * (n - 1) div 2"
proof (cases n)
  case (Suc m)
  have "map (\<lambda>i. n - Suc i) [0..<n - 1] = map (\<lambda>i. m - i) [0..<m]" using Suc by simp
  with Suc show ?thesis by (simp add: sum_countdown mult.commute)
qed simp

lemma comparisons_sort_loop:
  "comparisons (events (sort_loop s)) = comparisons (events s) + length (arr s) * (length (arr s) - 1) div 2"
proof -
  let ?n = "length (arr s)"
  have "comparisons (events (fold (pass_step ?n) is s')) = comparisons (events s') + sum_list (map (\<lambda>i. ?n - Suc i) is)"
    for "is" s'
    by (induction "is" arbitrary: s') (simp_all add: comparisons_pass_step)
  with pass_lengths_sum[of ?n] show ?thesis by (simp add: sort_loop_def Let_def)
qed

lemma comparisons_setcolor: "\<not> is_comparison (Play (map (\<lambda>b. SetColor b c) xs))"
  by (cases xs) auto

lemma play_count_simps [simp]:
  "play_count [] = 0" "play_count (Play as # evs) = Suc (play_count evs)"
  "play_count (Wait t # evs) = play_count evs" "play_count (xs @ ys) = play_count xs + play_count ys"
  by (simp_all add: play_count_def)

lemma wait_ms_simps [simp]:
  "wait_ms [] = 0" "wait_ms (Play as # evs) = wait_ms evs"
  "wait_ms (Wait t # evs) = t + wait_ms evs" "wait_ms (xs @ ys) = wait_ms xs + wait_ms ys"
  by (simp_all add: wait_ms_def)

lemma counts_compare_step:
  "wait_ms (events (compare_step i j s)) = wait_ms (events s) + 1000 \<and>
   play_count (events s) + 3 \<le> play_count (events (compare_step i j s))"
  by (simp add: compare_step_def swap_step_def emit_def Let_def)

lemma counts_fold_compare:
  "wait_ms (events (fold (compare_step i) js s)) = wait_ms (events s) + 1000 * length js \<and>
   play_count (events s) + 3 * length js \<le> play_count (events (fold (compare_step i) js s))"
proof (induction js arbitrary: s)
  case (Cons j js)
  from counts_compare_step[of i j s] Cons[of "compare_step i j s"] show ?case by simp
qed simp

lemma counts_pass_step:
  "wait_ms (events (pass_step n i s)) = wait_ms (events s) + 1000 * (n - Suc i) \<and>
   play_count (events s) + 2 + 3 * (n - Suc i) \<le> play_count (events (pass_step n i s))"
  using counts_fold_compare[of i "[0..<n - i - 1]" "emit (Play [Write (PassText i)]) s"]
  by (simp add: pass_step_def emit_def Let_def)

lemma counts_sort_loop:
  "wait_ms (events (sort_loop s)) = wait_ms (events s) + 1000 * (length (arr s) * (length (arr s) - 1) div 2) \<and>
   play_count (events s) + 2 * (length (arr s) - 1) + 3 * (length (arr s) * (length (arr s) - 1) div 2)
     \<le> play_count (events (sort_loop s))"
proof -
  let ?n = "length (arr s)"
  have fold: "wait_ms (events (fold (pass_step ?n) is s')) = wait_ms (events s') + 1000 * sum_list (map (\<lambda>i. ?n - Suc i) is) \<and>
    play_count (events s') + 2 * length is + 3 * sum_list (map (\<lambda>i. ?n - Suc i) is) \<le> play_count (events (fold (pass_step ?n) is s'))"
    for "is" s'
  proof (induction "is" arbitrary: s')
    case (Cons i "is")
    from counts_pass_step[of ?n i s'] Cons[of "pass_step ?n i s'"] show ?case by (simp add: algebra_simps)
  qed simp
  from fold[of "[0..<?n - 1]" s] pass_lengths_sum[of ?n] show ?thesis by (simp add: sort_loop_def Let_def)
qed

lemma construct_counts:
  "wait_ms (events (construct a)) = 7000 + 1000 * (length a * (length a - 1) div 2) \<and>
   8 + 2 * (length a - 1) + 3 * (length a * (length a - 1) div 2) \<le> play_count (events (construct a))"
  using counts_sort_loop[of "scene_setup a"]
  by (simp add: construct_def scene_finish_def scene_setup_def emit_def)

lemma scene_inv_construct: "scene_inv (length a) (construct a)"
  unfolding construct_def by (intro scene_inv_finish scene_inv_sort_loop scene_inv_setup)

lemma arr_construct: "arr (construct a) = bubble_sort a"
  by (simp add: construct_def arr_sort_loop)

lemma bar_color_construct [simp]: "bar_color (construct a) b = Green"
  by (simp add: construct_def)

subsection \<open>Properties of the scene\<close>

text \<open>
  C14. Refinement: the array the scene ends with is the reference bubble
  sort of the input array; the drawing does not change what the loops compute.
\<close>

theorem construct_refines_bubble_sort: "arr (construct a) = bubble_sort a"
  by (simp add: construct_def arr_sort_loop)

text \<open>
  C15. Equivalence: the reference bubble sort of lines 30--44 (all
  \<open>n - 1\<close> passes, each one shorter than the last) computes the library's
  \<open>sort\<close>: its result is sorted and a permutation of its input.
\<close>

theorem bubble_sort_eq_sort: "bubble_sort a = sort a"
  by (rule sym, rule properties_for_sort) (simp_all add: mset_bubble_sort sorted_bubble_sort)

text \<open>
  C16. The final picture shows the sorted array: for every position \<open>k\<close>,
  the \<open>k\<close>-th bar of \<open>bars\<close> has the height of the \<open>k\<close>-th smallest element,
  stands in slot \<open>k\<close> of the row, and is green, and label \<open>k\<close> shows the
  \<open>k\<close>-th smallest element.
\<close>

theorem construct_shows_sorted:
  assumes "k < length a"
  shows "bar_height (construct a) (bars (construct a) ! k) = sort a ! k \<and>
         bar_x (construct a) (bars (construct a) ! k) = slot_x (length a) k \<and>
         bar_color (construct a) (bars (construct a) ! k) = Green \<and>
         label_text (construct a) k = sort a ! k"
proof -
  have "bubble_sort a = sort a"
    by (rule sym, rule properties_for_sort) (simp_all add: mset_bubble_sort sorted_bubble_sort)
  with scene_inv_construct[of a] assms show ?thesis by (simp add: scene_inv_def arr_construct)
qed

theorem construct_shows_sorted_witness:
  "0 < length video_arr \<and>
   bar_height (construct video_arr) (bars (construct video_arr) ! 0) = 1 \<and>
   bar_x (construct video_arr) (bars (construct video_arr) ! 0) = -5 \<and>
   bar_color (construct video_arr) (bars (construct video_arr) ! 0) = Green \<and>
   label_text (construct video_arr) 0 = 1"
  using construct_shows_sorted[of 0 video_arr] by (simp add: video_arr_def slot_x_def)

text \<open>
  C17. Invariant: the picture invariant \<open>scene_inv\<close> (the bars, their
  heights and places and the label numbers agree with \<open>arr\<close>, and the bar
  objects are permuted, never duplicated or lost) holds after the set-up of
  lines 6--27 and is preserved by every step of the scene: a swap (lines
  43--59) and a comparison (lines 35--62) at an index \<open>j\<close> of the inner
  loop's range, a pass of the outer loop (lines 32--63), and the finale of
  lines 66--76.
\<close>

theorem scene_steps_keep_picture:
  "scene_inv (length a) (scene_setup a) \<and>
   (\<forall>s j. scene_inv n s \<and> Suc j < n \<longrightarrow> scene_inv n (swap_step j s)) \<and>
   (\<forall>s i j. scene_inv n s \<and> Suc j < n \<longrightarrow> scene_inv n (compare_step i j s)) \<and>
   (\<forall>s i. scene_inv n s \<longrightarrow> scene_inv n (pass_step n i s)) \<and>
   (\<forall>s. scene_inv n s \<longrightarrow> scene_inv n (scene_finish s))"
  by (simp add: scene_inv_setup scene_inv_swap_step scene_inv_compare_step scene_inv_pass_step scene_inv_finish)

theorem scene_steps_keep_picture_witness:
  "scene_inv 6 (scene_setup video_arr) \<and> Suc 0 < 6 \<and>
   scene_inv 6 (compare_step 0 0 (scene_setup video_arr)) \<and>
   scene_inv 6 (scene_finish (pass_step 6 0 (scene_setup video_arr)))"
proof -
  have L: "length video_arr = 6" by (simp add: video_arr_def)
  from scene_steps_keep_picture[of video_arr 6] L show ?thesis by simp
qed

text \<open>
  C18. Labels of unswapped positions are never placed: the labels are put
  next to the bars at line 18, while every bar is still at the origin, and
  \<open>arrange\<close> at line 23 moves only the bars.  On an already sorted input no
  swap happens, so every label stays above the origin, away from its bar.
\<close>

theorem sorted_input_labels_stacked:
  assumes "sorted a" and "k < length a" and "slot_x (length a) k \<noteq> 0"
  shows "label_x (construct a) k = 0 \<and> label_x (construct a) k \<noteq> bar_x (construct a) (bars (construct a) ! k)"
proof -
  have "label_x (construct a) = label_x (scene_setup a)"
    using assms(1) by (simp add: construct_def sort_loop_sorted_labels scene_setup_def)
  then have lx: "label_x (construct a) = (\<lambda>_. 0)" by (simp add: scene_setup_def)
  have "bar_x (construct a) (bars (construct a) ! k) = slot_x (length a) k"
    using scene_inv_construct[of a] assms(2) by (simp add: scene_inv_def)
  with lx assms(3) show ?thesis by simp
qed

theorem sorted_input_labels_stacked_witness:
  "sorted [1, 2, 3, 4::int] \<and> 0 < length [1, 2, 3, 4::int] \<and> slot_x (length [1, 2, 3, 4::int]) 0 \<noteq> 0 \<and>
   label_x (construct [1, 2, 3, 4]) 0 = 0 \<and>
   label_x (construct [1, 2, 3, 4]) 0 \<noteq> bar_x (construct [1, 2, 3, 4]) (bars (construct [1, 2, 3, 4]) ! 0)"
  using sorted_input_labels_stacked[of "[1, 2, 3, 4]" 0] by (simp add: slot_x_def)

text \<open>
  C19. Bound: the scene announces exactly one comparison per iteration of
  the inner loop, \<open>n (n - 1) / 2\<close> in all for \<open>n\<close> elements.
\<close>

theorem construct_comparisons:
  "comparisons (events (construct a)) = length a * (length a - 1) div 2"
proof -
  have "comparisons (events (scene_finish s)) = comparisons (events s)" for s
    by (simp add: scene_finish_def emit_def comparisons_setcolor)
  then show ?thesis by (simp add: construct_def comparisons_sort_loop scene_setup_def)
qed

text \<open>
  C20. The scene waits 7 seconds outside the loops and half a second twice
  per comparison: \<open>7000 + 1000 n (n - 1) / 2\<close> milliseconds of \<open>self.wait\<close>.
\<close>

theorem construct_waits:
  "wait_ms (events (construct a)) = 7000 + 1000 * (length a * (length a - 1) div 2)"
  using construct_counts[of a] by simp

end
