(* ===== verification/Scene_Swaps.thy ===== *)
theory Scene_Swaps
  imports Manim_Scene
begin

text \<open>
  The swaps the scene of \<^verbatim>\<open>src/video.py\<close> animates.  A swap shows as the
  play of lines 48--51 that moves two bars; their number is the number of
  inversions of the input array (pairs of positions out of order), because
  each swap of neighbours out of order removes exactly one inversion and the
  scene ends sorted.  With the swaps counted, the number of plays of the
  scene is exact.
\<close>

fun is_swap :: "scene_event \<Rightarrow> bool" where
  "is_swap (Play [MoveTo _ _, MoveTo _ _]) = True"
| "is_swap _ = False"

definition swaps :: "scene_event list \<Rightarrow> nat" where
  "swaps evs = length (filter is_swap evs)"

definition inv_set :: "int list \<Rightarrow> (nat \<times> nat) set" where
  "inv_set a = {(i, j). i < j \<and> j < length a \<and> a ! j < a ! i}"

definition index_pairs :: "nat \<Rightarrow> (nat \<times> nat) list" where
  "index_pairs n = filter (\<lambda>(i, j). i < j) (List.product [0..<n] [0..<n])"

definition inversions :: "int list \<Rightarrow> nat" where
  "inversions a = length (filter (\<lambda>(i, j). a ! j < a ! i) (index_pairs (length a)))"

subsection \<open>Lemmas\<close>

lemma swaps_simps [simp]:
  "swaps [] = 0" "swaps (x # xs) = (if is_swap x then 1 else 0) + swaps xs"
  "swaps (xs @ ys) = swaps xs + swaps ys"
  by (simp_all add: swaps_def)

lemma set_index_pairs: "set (index_pairs n) = {(i, j). i < j \<and> j < n}"
  by (auto simp: index_pairs_def)

lemma distinct_index_pairs: "distinct (index_pairs n)"
  by (simp add: index_pairs_def distinct_product)

lemma inversions_card: "inversions a = card (inv_set a)"
proof -
  have "inv_set a = set (filter (\<lambda>(i, j). a ! j < a ! i) (index_pairs (length a)))"
    by (auto simp: inv_set_def set_index_pairs)
  moreover have "card (set (filter (\<lambda>(i, j). a ! j < a ! i) (index_pairs (length a))))
      = length (filter (\<lambda>(i, j). a ! j < a ! i) (index_pairs (length a)))"
    by (rule distinct_card) (simp add: distinct_index_pairs)
  ultimately show ?thesis by (simp only: inversions_def)
qed

lemma finite_inv_set [simp]: "finite (inv_set a)"
  by (rule finite_subset[of _ "{..<length a} \<times> {..<length a}"]) (auto simp: inv_set_def)

lemma inv_set_swap:
  assumes j: "Suc j < length a" and gt: "a ! Suc j < a ! j"
  shows "card (inv_set a) = Suc (card (inv_set (a[j := a ! Suc j, Suc j := a ! j])))"
proof -
  define b where "b = a[j := a ! Suc j, Suc j := a ! j]"
  define \<sigma> where "\<sigma> k = (if k = j then Suc j else if k = Suc j then j else k)" for k
  define \<tau> where "\<tau> p = (\<sigma> (fst p), \<sigma> (snd p))" for p
  have len: "length b = length a" by (simp add: b_def)
  have bnth: "b ! k = a ! \<sigma> k" if "k < length a" for k
    using that j by (simp add: b_def \<sigma>_def nth_list_update)
  have ss: "\<sigma> (\<sigma> k) = k" for k by (simp add: \<sigma>_def)
  have \<sigma>len: "\<sigma> k < length a \<longleftrightarrow> k < length a" for k using j by (auto simp: \<sigma>_def)
  have mono: "\<sigma> i < \<sigma> k" if "i < k" "(i, k) \<noteq> (j, Suc j)" for i k
    using that by (auto simp: \<sigma>_def)
  have notin: "(j, Suc j) \<notin> inv_set b" using j gt bnth by (simp add: inv_set_def \<sigma>_def len)
  have sub1: "\<tau> ` inv_set b \<subseteq> inv_set a"
  proof
    fix p assume "p \<in> \<tau> ` inv_set b"
    then obtain i k where ik: "(i, k) \<in> inv_set b" "p = (\<sigma> i, \<sigma> k)" by (auto simp: \<tau>_def)
    then have "i < k" "k < length a" "b ! k < b ! i" by (auto simp: inv_set_def len)
    moreover have "(i, k) \<noteq> (j, Suc j)" using ik(1) notin by blast
    ultimately show "p \<in> inv_set a"
      using ik(2) mono bnth \<sigma>len by (auto simp: inv_set_def)
  qed
  have sub2: "inv_set a - {(j, Suc j)} \<subseteq> \<tau> ` inv_set b"
  proof
    fix p assume p: "p \<in> inv_set a - {(j, Suc j)}"
    then obtain i k where ik: "p = (i, k)" "i < k" "k < length a" "a ! k < a ! i" "(i, k) \<noteq> (j, Suc j)"
      by (auto simp: inv_set_def)
    have "(\<sigma> i, \<sigma> k) \<noteq> (j, Suc j)" using ik(2) by (auto simp: \<sigma>_def split: if_splits)
    moreover have "(\<sigma> i, \<sigma> k) \<noteq> (j, Suc j) \<Longrightarrow> \<sigma> i < \<sigma> k" using mono ik by blast
    ultimately have "(\<sigma> i, \<sigma> k) \<in> inv_set b"
      using ik bnth \<sigma>len ss by (auto simp: inv_set_def len)
    then show "p \<in> \<tau> ` inv_set b" using ik(1) ss by (auto simp: \<tau>_def image_iff intro!: bexI[of _ "(\<sigma> i, \<sigma> k)"])
  qed
  have ina: "(j, Suc j) \<in> inv_set a" using j gt by (simp add: inv_set_def)
  have "inv_set a = insert (j, Suc j) (\<tau> ` inv_set b)" using sub1 sub2 ina by blast
  moreover have "(j, Suc j) \<notin> \<tau> ` inv_set b"
  proof
    assume "(j, Suc j) \<in> \<tau> ` inv_set b"
    then obtain q where "q \<in> inv_set b" "\<tau> q = (j, Suc j)" by (metis imageE)
    then have "q = (Suc j, j)" by (cases q) (auto simp: \<tau>_def \<sigma>_def split: if_splits)
    with \<open>q \<in> inv_set b\<close> show False by (simp add: inv_set_def)
  qed
  moreover have "inj_on \<tau> (inv_set b)"
    by (rule inj_onI) (metis \<tau>_def prod.collapse prod.inject ss)
  ultimately show ?thesis by (simp add: card_image b_def)
qed
lemma inv_set_sorted: "sorted a \<Longrightarrow> inv_set a = {}"
  by (auto simp: inv_set_def dest: sorted_nth_mono[of a _ _, OF _ less_imp_le])

lemma inv_cmp_swap:
  "Suc j < length a \<Longrightarrow>
   card (inv_set a) = card (inv_set (cmp_swap j a)) + (if a ! Suc j < a ! j then 1 else 0)"
  by (simp add: cmp_swap_def inv_set_swap)

lemma counts_compare_swap:
  "swaps (events (compare_step i j s)) = swaps (events s) + (if arr s ! Suc j < arr s ! j then 1 else 0) \<and>
   play_count (events (compare_step i j s)) = play_count (events s) + 3 + 2 * (if arr s ! Suc j < arr s ! j then 1 else 0)"
  by (simp add: compare_step_def swap_step_def emit_def Let_def)

lemma swaps_fold_compare:
  "\<forall>j\<in>set js. Suc j < length (arr s) \<Longrightarrow>
   swaps (events (fold (compare_step i) js s)) + card (inv_set (arr (fold (compare_step i) js s)))
     = swaps (events s) + card (inv_set (arr s)) \<and>
   play_count (events (fold (compare_step i) js s)) + 2 * swaps (events s)
     = play_count (events s) + 3 * length js + 2 * swaps (events (fold (compare_step i) js s)) \<and>
   length (arr (fold (compare_step i) js s)) = length (arr s)"
proof (induction js arbitrary: s)
  case (Cons j js)
  let ?s1 = "compare_step i j s"
  have j: "Suc j < length (arr s)" using Cons.prems by simp
  have len1: "length (arr ?s1) = length (arr s)" by (simp add: arr_compare_step)
  have c: "card (inv_set (arr s)) = card (inv_set (arr ?s1)) + (if arr s ! Suc j < arr s ! j then 1 else 0)"
    using inv_cmp_swap[OF j] by (simp add: arr_compare_step)
  have IH: "swaps (events (fold (compare_step i) js ?s1)) + card (inv_set (arr (fold (compare_step i) js ?s1)))
       = swaps (events ?s1) + card (inv_set (arr ?s1)) \<and>
     play_count (events (fold (compare_step i) js ?s1)) + 2 * swaps (events ?s1)
       = play_count (events ?s1) + 3 * length js + 2 * swaps (events (fold (compare_step i) js ?s1)) \<and>
     length (arr (fold (compare_step i) js ?s1)) = length (arr ?s1)"
    using Cons.IH[of ?s1] Cons.prems len1 by simp
  show ?case using IH c counts_compare_swap[of i j s] len1 by auto
qed simp

lemma swaps_pass_step:
  "length (arr s) = n \<Longrightarrow>
   swaps (events (pass_step n i s)) + card (inv_set (arr (pass_step n i s))) = swaps (events s) + card (inv_set (arr s)) \<and>
   play_count (events (pass_step n i s)) + 2 * swaps (events s)
     = play_count (events s) + 2 + 3 * (n - Suc i) + 2 * swaps (events (pass_step n i s)) \<and>
   length (arr (pass_step n i s)) = n"
proof -
  assume n: "length (arr s) = n"
  have "\<forall>j\<in>set [0..<n - i - 1]. Suc j < length (arr (emit (Play [Write (PassText i)]) s))"
    using n by (auto simp: emit_def)
  from swaps_fold_compare[OF this, of i] n show ?thesis by (simp add: pass_step_def emit_def Let_def)
qed

lemma swaps_sort_loop:
  "swaps (events (sort_loop s)) + card (inv_set (arr (sort_loop s))) = swaps (events s) + card (inv_set (arr s)) \<and>
   play_count (events (sort_loop s)) + 2 * swaps (events s)
     = play_count (events s) + 2 * (length (arr s) - 1) + 3 * (length (arr s) * (length (arr s) - 1) div 2)
       + 2 * swaps (events (sort_loop s))"
proof -
  let ?n = "length (arr s)"
  have fold: "swaps (events (fold (pass_step ?n) is s')) + card (inv_set (arr (fold (pass_step ?n) is s')))
        = swaps (events s') + card (inv_set (arr s')) \<and>
      play_count (events (fold (pass_step ?n) is s')) + 2 * swaps (events s')
        = play_count (events s') + 2 * length is + 3 * sum_list (map (\<lambda>i. ?n - Suc i) is)
          + 2 * swaps (events (fold (pass_step ?n) is s')) \<and>
      length (arr (fold (pass_step ?n) is s')) = ?n"
    if "length (arr s') = ?n" for "is" s'
    using that
  proof (induction "is" arbitrary: s')
    case (Cons i "is")
    from swaps_pass_step[OF Cons.prems, of i] Cons.IH[of "pass_step ?n i s'"] show ?case by auto
  qed simp
  from fold[of s "[0..<?n - 1]"] pass_lengths_sum[of ?n] show ?thesis by (simp add: sort_loop_def Let_def)
qed

lemma setcolor_not_swap: "\<not> is_swap (Play (map (\<lambda>b. SetColor b c) xs))"
proof (cases xs)
  case (Cons x ys)
  then show ?thesis by (cases ys) (auto elim: is_swap.elims)
qed simp

lemma construct_swap_counts:
  "swaps (events (construct a)) = inversions a \<and>
   play_count (events (construct a))
     = 8 + 2 * (length a - 1) + 3 * (length a * (length a - 1) div 2) + 2 * inversions a"
proof -
  have sorted: "card (inv_set (arr (sort_loop (scene_setup a)))) = 0"
    by (simp add: arr_sort_loop inv_set_sorted sorted_bubble_sort)
  have fin: "swaps (events (scene_finish s)) = swaps (events s) \<and> play_count (events (scene_finish s)) = play_count (events s) + 5" for s
    by (simp add: scene_finish_def emit_def setcolor_not_swap)
  have "swaps (events (scene_setup a)) = 0" "play_count (events (scene_setup a)) = 3"
    by (simp_all add: scene_setup_def)
  with swaps_sort_loop[of "scene_setup a"] sorted fin show ?thesis
    by (simp add: construct_def inversions_card)
qed

subsection \<open>Properties of the swaps\<close>

text \<open>
  C26. The scene animates exactly one swap per inversion of its input: the
  number of bar-moving plays (lines 48--51) is the number of pairs of
  positions whose elements are out of order.
\<close>

theorem construct_swaps_inversions: "swaps (events (construct a)) = inversions a"
  using construct_swap_counts[of a] by simp

text \<open>
  C27. The scene makes exactly \<open>8 + 2 (n - 1) + 3 n (n - 1) / 2 + 2 inv\<close>
  plays for an array of \<open>n\<close> elements with \<open>inv\<close> inversions: five around the
  loops' set-up and finale, three more, two per pass, three per comparison
  and two per swap.
\<close>

theorem construct_play_count:
  "play_count (events (construct a))
     = 8 + 2 * (length a - 1) + 3 * (length a * (length a - 1) div 2) + 2 * inversions a"
  using construct_swap_counts[of a] by simp

end
