(* ===== verification/Scene_Labels.thy ===== *)
theory Scene_Labels
  imports Manim_Scene
begin

text \<open>
  Where the labels of the scene of \<^verbatim>\<open>src/video.py\<close> end up.  A label is
  placed next to its bar only when its position takes part in a swap
  (lines 57--58); before that it stays where line 18 put it, above the
  origin.  \<open>bubble_touched\<close> runs the loops of lines 30--44 on the array
  alone and collects the positions that some swap involves; the label of a
  position ends above its bar exactly when the position is in that set.
\<close>

definition cmp_touch :: "nat \<Rightarrow> int list \<times> nat set \<Rightarrow> int list \<times> nat set" where
  "cmp_touch j at =
     (case at of (a, T) \<Rightarrow> (cmp_swap j a, if a ! j > a ! Suc j then T \<union> {j, Suc j} else T))"

definition bubble_touched :: "int list \<Rightarrow> nat set" where
  "bubble_touched a =
     (let n = length a in snd (fold (\<lambda>i. fold cmp_touch [0..<n - i - 1]) [0..<n - 1] (a, {})))"

subsection \<open>Lemmas\<close>

lemma label_x_swap_step:
  assumes inv: "scene_inv n s" and j: "Suc j < n"
  shows "label_x (swap_step j s) = (label_x s)(j := slot_x n j, Suc j := slot_x n (Suc j))"
proof -
  have ne: "bars s ! j \<noteq> bars s ! Suc j" using inv j by (simp add: scene_inv_def nth_eq_iff_index_eq)
  have "bar_x s (bars s ! j) = slot_x n j" "bar_x s (bars s ! Suc j) = slot_x n (Suc j)"
    using inv j by (simp_all add: scene_inv_def)
  with ne inv j show ?thesis by (simp add: swap_step_def emit_def Let_def scene_inv_def)
qed

lemma label_x_compare_step:
  assumes "scene_inv n s" and "Suc j < n"
  shows "label_x (compare_step i j s) =
           (if arr s ! j > arr s ! Suc j then (label_x s)(j := slot_x n j, Suc j := slot_x n (Suc j))
            else label_x s)"
proof -
  have col: "scene_inv n (s'\<lparr>bar_color := c\<rparr>) = scene_inv n s'" for s' c by (simp add: scene_inv_def)
  have "scene_inv n (emit (Wait 500) (emit (Play [SetColor (bars s ! j) Red, SetColor (bars s ! Suc j) Red])
          ((emit (Play [Transform (PassText i) (ComparingText (arr s ! j) (arr s ! Suc j))]) s)
             \<lparr>bar_color := c\<rparr>)))" for c
    using assms(1) by (simp add: col)
  with label_x_swap_step[OF _ assms(2)] show ?thesis
    by (simp add: compare_step_def Let_def emit_def)
qed

lemma label_x_fold_compare:
  assumes "scene_inv n s" and "\<forall>j\<in>set js. Suc j < n"
    and "label_x s = (\<lambda>k. if k \<in> T then slot_x n k else L0 k)"
  shows "label_x (fold (compare_step i) js s) =
           (\<lambda>k. if k \<in> snd (fold cmp_touch js (arr s, T)) then slot_x n k else L0 k) \<and>
         arr (fold (compare_step i) js s) = fst (fold cmp_touch js (arr s, T))"
  using assms
proof (induction js arbitrary: s T)
  case (Cons j js)
  let ?s1 = "compare_step i j s" and ?T1 = "snd (cmp_touch j (arr s, T))"
  have j: "Suc j < n" using Cons.prems(2) by simp
  have inv1: "scene_inv n ?s1" using scene_inv_compare_step[OF Cons.prems(1) j] .
  have lab1: "label_x ?s1 = (\<lambda>k. if k \<in> ?T1 then slot_x n k else L0 k)"
    using label_x_compare_step[OF Cons.prems(1) j, of i] Cons.prems(3)
    by (auto simp: cmp_touch_def)
  have arr1: "cmp_touch j (arr s, T) = (arr ?s1, ?T1)"
    by (simp add: cmp_touch_def arr_compare_step)
  from Cons.IH[OF inv1 _ lab1] Cons.prems(2) arr1 show ?case by simp
qed simp

lemma label_x_pass_step:
  assumes "scene_inv n s" and "label_x s = (\<lambda>k. if k \<in> T then slot_x n k else L0 k)"
  shows "label_x (pass_step n i s) =
           (\<lambda>k. if k \<in> snd (fold cmp_touch [0..<n - i - 1] (arr s, T)) then slot_x n k else L0 k) \<and>
         arr (pass_step n i s) = fst (fold cmp_touch [0..<n - i - 1] (arr s, T)) \<and>
         scene_inv n (pass_step n i s)"
proof -
  let ?s1 = "emit (Play [Write (PassText i)]) s"
  have inv1: "scene_inv n ?s1" using assms(1) by simp
  have "label_x ?s1 = (\<lambda>k. if k \<in> T then slot_x n k else L0 k)" "arr ?s1 = arr s"
    using assms(2) by (simp_all add: emit_def)
  moreover have "\<forall>j\<in>set [0..<n - i - 1]. Suc j < n" by auto
  ultimately show ?thesis
    using label_x_fold_compare[OF inv1, of "[0..<n - i - 1]" T L0 i] scene_inv_pass_step[OF assms(1), of i] by (simp add: pass_step_def emit_def Let_def)
qed

lemma label_x_sort_loop:
  assumes "scene_inv n s" and "label_x s = (\<lambda>k. if k \<in> T then slot_x n k else L0 k)"
  shows "label_x (fold (pass_step n) is s) =
           (\<lambda>k. if k \<in> snd (fold (\<lambda>i. fold cmp_touch [0..<n - i - 1]) is (arr s, T)) then slot_x n k else L0 k)"
  using assms
proof (induction "is" arbitrary: s T)
  case (Cons i "is")
  from label_x_pass_step[OF Cons.prems, of i] Cons.IH[of "pass_step n i s" "snd (fold cmp_touch [0..<n - i - 1] (arr s, T))"]
  show ?case by (simp add: prod.collapse)
qed simp

lemma label_x_construct:
  "label_x (construct a) = (\<lambda>k. if k \<in> bubble_touched a then slot_x (length a) k else 0)"
proof -
  have "label_x (sort_loop (scene_setup a)) =
          (\<lambda>k. if k \<in> bubble_touched a then slot_x (length a) k else 0)"
    using label_x_sort_loop[OF scene_inv_setup[of a], of "{}" "\<lambda>_. 0" "[0..<length a - 1]"]
    by (simp add: sort_loop_def bubble_touched_def scene_setup_def Let_def)
  then show ?thesis by (simp add: construct_def)
qed

lemma bar_x_construct: "k < length a \<Longrightarrow> bar_x (construct a) (bars (construct a) ! k) = slot_x (length a) k"
  using scene_inv_construct[of a] by (simp add: scene_inv_def)

subsection \<open>Properties of the labels\<close>

text \<open>
  C29. The label of a position ends above its bar exactly when some swap of
  the sort involves the position, or the position is the middle slot of an
  odd row (which lies above the origin anyway); every other label stays
  where line 18 put it.  This generalises the sorted-input finding: the
  placement of the labels depends on the swaps, not on the array.
\<close>

theorem construct_label_placed:
  assumes "k < length a"
  shows "label_x (construct a) k = bar_x (construct a) (bars (construct a) ! k) \<longleftrightarrow>
         k \<in> bubble_touched a \<or> slot_x (length a) k = 0"
  using assms by (auto simp: label_x_construct bar_x_construct)

theorem construct_label_placed_witness:
  "0 < length [1, 3, 2::int] \<and>
   (label_x (construct [1, 3, 2]) 0 = bar_x (construct [1, 3, 2]) (bars (construct [1, 3, 2]) ! 0) \<longleftrightarrow>
    0 \<in> bubble_touched [1, 3, 2] \<or> slot_x (length [1, 3, 2::int]) 0 = 0) \<and>
   0 \<notin> bubble_touched [1, 3, 2] \<and> slot_x 3 0 \<noteq> 0"
proof -
  have "bubble_touched [1, 3, 2] = {1, 2}" by code_simp
  with construct_label_placed[of 0 "[1, 3, 2]"] show ?thesis by (simp add: slot_x_def)
qed

end
