(* ===== verification/Spec2Isabelle.thy ===== *)
theory Spec2Isabelle
  imports Video_Path Service_Answers Scene_Swaps Scene_Labels
begin

text \<open>
  \<^bold>\<open>A verification library for Manim-VidGen-BackEnd.\<close>

  \<^bold>\<open>The program.\<close>  \<^verbatim>\<open>src/main.py\<close> is a FastAPI service.  \<open>POST /generate\<close>
  (\<open>generate\<close>, lines 61--96) reads a JSON body, takes its \<open>prompt\<close>, asks
  the Gemini model for Manim code through \<open>call_llm\<close> (lines 32--58), which
  also extracts the fenced code block from the reply (lines 49--53), takes
  the first \<open>class Name(\<close> of the code as the scene name (lines 75--76),
  writes the code to \<^verbatim>\<open>video.py\<close> and runs \<^verbatim>\<open>manim -qm video.py Name\<close>
  (lines 80--88), and answers from the exit code.  \<open>GET /video\<close>
  (\<open>ai_video_retrieve\<close>, lines 98--108) serves
  \<^verbatim>\<open>media/videos/video/720p30/Name.mp4\<close> if it exists.  The components share
  nothing but the working directory: the service writes \<^verbatim>\<open>video.py\<close>, the
  renderer reads it and writes the video, the retrieval endpoint reads the
  video.  \<^verbatim>\<open>src/video.py\<close> is one such generated file, checked in: a Manim
  scene that animates a bubble sort.

  \<^bold>\<open>The theories.\<close>
  \<^item> \<open>Py_Prelude\<close>: Python's string built-ins as the code uses them
    (\<open>py_isspace\<close> and \<open>py_isword\<close> for the classes \<open>\s\<close> and \<open>\w\<close>, \<open>py_strip\<close>
    for \<open>str.strip\<close>, \<open>py_in\<close> for \<open>in\<close>), the values \<open>json.loads\<close> returns
    (\<open>json\<close>, with \<open>py_truthy\<close> and \<open>py_get\<close> for \<open>if not x\<close> and
    \<open>dict.get\<close>), and \<open>re_search\<close>, the left-to-right loop of \<open>re.search\<close>
    over an anchored matcher, with the lemmas that it returns the leftmost
    match (\<open>re_search_Some_iff\<close>, \<open>re_search_None_iff\<close>,
    \<open>re_search_skip\<close>).  Strings are lists of Latin-1 code points.
  \<^item> \<open>Code_Extractor\<close>: the pattern \<^verbatim>\<open>```(?:python)?\n(.*?)```\<close> as the
    backtracking matcher \<open>re\<close> runs (\<open>lazy_body\<close>, \<open>fence_at\<close>,
    \<open>fence_search\<close>) and \<open>extract_code\<close> (lines 49--53); the declarative
    reading \<open>fence_match\<close> of the pattern and the proof that the search
    refines it.
  \<^item> \<open>Scene_Resolver\<close>: the pattern \<^verbatim>\<open>class\s+(\w+)\s*\(\<close>
    (\<open>scene_at\<close>, \<open>scene_search\<close>) and \<open>resolve_scene_name\<close> (lines 75--76),
    with the reading \<open>scene_match\<close>.
  \<^item> \<open>Llm_Client\<close>: the request \<open>llm_request\<close> (two user turns and temperature
    0.2) and \<open>call_llm\<close>, with the service as a parameter.
  \<^item> \<open>Http_Service\<close>: the state \<open>world\<close> (files and printed lines), the
    collaborators \<open>env\<close> (model, \<open>open\<close>, \<open>manim\<close>), \<open>render_invoke\<close>,
    \<open>generate_render\<close>, \<open>generate\<close> and \<open>ai_video_retrieve\<close>, each a function
    from the world to the response and the new world, every exception of the
    source a branch that answers \<open>failed\<close>.
  \<^item> \<open>Http_Service\<close> also holds the renderer's output convention, taken
    from the specification: \<open>manim_output\<close> derives the output path from
    the command line (\<open>quality_dirs\<close> maps \<open>-ql\<close>, \<open>-qm\<close>, \<open>-qh\<close>, \<open>-qp\<close>,
    \<open>-qk\<close> to their directories, \<open>script_stem\<close> names the directory after
    the script), and \<open>renders_to_convention\<close> says that a run exiting with 0
    has written that path.  Nothing in it mentions \<open>video\<close> or \<open>720p30\<close>.
  \<^item> \<open>Service_Process\<close>: the start-up of lines 22--30 (\<open>startup\<close>, fail
    fast without a key) and the process that serves requests one after the
    other (\<open>service\<close>, \<open>serve_seq\<close>); \<open>generate\<close> split at the write of
    \<^verbatim>\<open>video.py\<close> into \<open>generate_start\<close> and \<open>generate_finish\<close> (their
    composition is \<open>generate\<close>), and the step relation \<open>worker_step\<close> on a
    \<open>server\<close> state, worker processes sharing the files, where the phases of
    different requests interleave.
  \<^item> \<open>Service_Answers\<close>: the response schema \<open>response_ok\<close> that every
    answer of either endpoint meets, and the error path of a body that is
    not a JSON object.
  \<^item> \<open>Video_Path\<close>: where \<open>GET /video\<close> looks: the POSIX resolution of a
    relative path without symbolic links (\<open>path_segments\<close>, \<open>norm_path\<close>, as
    \<open>os.path.normpath\<close>) applied to \<open>video_path\<close>.
  \<^item> \<open>Manim_Scene\<close>: the checked-in scene, \<open>construct\<close> of
    \<^verbatim>\<open>src/video.py\<close>, as explicit state passing over \<open>scene_state\<close> (the
    array, the list of bar objects, the attributes of bars and labels the scene
    changes, and the trace of \<open>self.play\<close> and \<open>self.wait\<close> calls):
    \<open>scene_setup\<close>, \<open>compare_step\<close> and \<open>swap_step\<close> for the body of the inner
    loop, \<open>pass_step\<close> and \<open>sort_loop\<close> for the loops, \<open>scene_finish\<close>; and
    the reference \<open>bubble_sort\<close> on the array alone.
  \<^item> \<open>Scene_Swaps\<close>: the swaps the scene animates, counted by \<open>swaps\<close>, and
    the inversions of an array (\<open>inv_set\<close>, and \<open>inversions\<close>, its
    executable count); each swap of neighbours out of order removes one
    inversion (\<open>inv_set_swap\<close>).
  \<^item> \<open>Scene_Labels\<close>: where the labels end: \<open>bubble_touched\<close> (with
    \<open>cmp_touch\<close>) runs the sort on the array alone and collects the
    positions some swap involves; the label of a position is placed above its
    bar exactly when the position is in that set.
  \<^item> this theory: the properties that span the components.

  \<^bold>\<open>What is proved.\<close>  The extractor returns the trimmed body of the first
  well-formed fenced block and \<open>""\<close> without a fence, and its search is the
  leftmost match of the pattern's reading; the resolver returns the name of
  the first declaration, the default without one, and always a non-empty
  word; each branch of \<open>generate\<close> answers as the specification says (empty
  prompt, model failure, render failure, success) and a successful answer
  names a safe scene.  Across the components, a successful \<open>generate\<close>
  followed by \<open>GET /video\<close> for the reported name serves the video
  (\<open>generate_then_retrieve\<close>): the path that the renderer's convention
  derives from the command line of line 84 (\<open>-qm\<close>, \<^verbatim>\<open>video.py\<close>) is proved
  to be the path line 101 builds, so a change of the quality flag or of the
  script name breaks the theorem.  For the process: start-up fails before
  serving anything without a non-empty key; worker processes sharing
  \<^verbatim>\<open>video.py\<close> can answer one request with the render of another's source
  (\<open>workers_race\<close>).  Every answer of either endpoint has the response
  schema of the specification, and a body that is not a JSON object is
  answered \<open>failed\<close> with Python's own exception message.  A scene name that
  \<open>generate\<close> reports always leads \<open>GET /video\<close> into
  \<^verbatim>\<open>media/videos/video/720p30\<close>, but the query parameter is not checked, so
  \<open>../\<close> components reach any \<open>.mp4\<close> file the process can read.  For the
  scene: its array ends as the reference bubble sort computes it
  (\<open>construct_refines_bubble_sort\<close>), which is the library's \<open>sort\<close>
  (\<open>bubble_sort_eq_sort\<close>); the picture invariant holds after the set-up and
  every step keeps bars, heights, places and label numbers in step with the
  array (\<open>scene_steps_keep_picture\<close>), so the final picture shows the sorted
  array (\<open>construct_shows_sorted\<close>); the scene announces \<open>n (n - 1) / 2\<close>
  comparisons, waits \<open>7 + n (n - 1) / 2\<close> seconds, and animates one swap per
  inversion of its input, so its number of plays is exact
  (\<open>construct_play_count\<close>).

  \<^bold>\<open>Findings.\<close>  The sentinel test \<open>"error:" in llm_output\<close> turns valid
  code that mentions \<open>error:\<close> into an error answer, and a reply that follows
  the adapter's own instruction not to fence the code is extracted as
  \<open>""\<close>, so an empty \<^verbatim>\<open>video.py\<close> is rendered under the default name.  In
  the scene, labels are placed before the bars are arranged and move only
  when swapped, so on sorted input every label stays above the origin
  (\<open>sorted_input_labels_stacked\<close>); in general a label is placed exactly
  when its position is swapped (\<open>construct_label_placed\<close>), which the
  checked-in array does for every position.  The scene's comments time it at
  23 seconds; for its own array it makes 81 plays and waits 22 seconds, so
  at Manim's default of one second per play it lasts at least 103 seconds,
  about 104 since the \<open>Write\<close> of the 34-glyph conclusion at line 74 takes
  two.  Worker processes race on \<^verbatim>\<open>video.py\<close> (\<open>workers_race\<close>), and
  \<open>GET /video\<close> follows \<open>../\<close> in its query parameter out of the media
  directory (\<open>video_query_escapes\<close>).

  \<^bold>\<open>Bounds and fuel.\<close>  Every loop of the model is structural recursion over the
  input string or a \<open>fold\<close> over the \<open>range\<close> the Python loop iterates, so no
  fuel is needed and every function is total.  The worker-process model is a
  relation, not a function; the race is a finite run of it.  Positions in
  the scene are doubled Manim units, so that the row of bars has integral
  coordinates.

  \<^bold>\<open>Not modelled.\<close>  The generative service and the renderer are parameters
  of \<open>env\<close>: \<open>run\<close> is a total function, so a \<open>manim\<close> run that never ends
  (the hung render of section 5 of the specification, which blocks its
  worker) is outside the model, and nothing here claims that a request is
  always answered.  The renderer's path convention is the one fact taken
  from the specification.  FastAPI's routing, JSON decoding and
  serialisation and \<open>print\<close>'s formatting are library behaviour; JSON
  floating-point numbers and code points above U+00FF are outside the value
  model.  The CORS middleware (lines 14--21) is framework configuration:
  all it decides is Starlette's exact-string test of the \<open>Origin\<close> header
  against the two listed origins, so a model would only restate the list.
  In the scene, Manim's rendering (colours, fonts, the interpolation and run
  times of animations, vertical positions) is not modelled: an animation is
  its constructor and its target.  \<open>construct\<close> is stated for every input
  array; on the empty array Manim raises at line 66 (\<open>self.play\<close> with no
  animation), which the model does not represent, while the checked-in
  array has six elements.  The concurrency model covers the phases that
  touch shared files; the printed lines of concurrent handlers are
  interleaved in one console.  Symbolic links in the path of
  \<open>GET /video\<close> are outside the resolution model.
\<close>

subsection \<open>Properties across the components\<close>

text \<open>
  C1. Generate, then retrieve: if \<open>manim\<close> keeps its output convention
  (a run that exits with 0 on \<open>manim <flag> <stem>.py <scene>\<close> has
  written \<open>media/videos/<stem>/<quality dir of flag>/<scene>.mp4\<close>), every
  successful \<open>POST /generate\<close> leaves a world in which
  \<open>GET /video?scene_name=<the reported name>\<close> serves the video file: the
  path the convention derives from the command line of line 84 is the path
  line 101 builds.
\<close>

theorem generate_then_retrieve:
  assumes "renders_to_convention e" and "generate e b w = (resp_success n d, w')"
  shows "fst (ai_video_retrieve (Some n) w') = FileResp (video_path n) ''video/mp4''"
proof -
  from assms(2) obtain out fs err where "run e fs (manim_argv n) = Exited 0 d err (files w')"
    using generate_success by blast
  moreover have "manim_output (manim_argv n) = Some (video_path n)"
    by (simp add: manim_argv_def source_file_def quality_dirs_def script_stem_def video_path_def)
  ultimately have "files w' (video_path n) \<noteq> None"
    using assms(1) unfolding renders_to_convention_def by blast
  then show ?thesis by (simp add: ai_video_retrieve_def Let_def)
qed

theorem generate_then_retrieve_witness:
  "let e = \<lparr>llm = (\<lambda>_. LlmText (fence @ ''python'' @ [LF] @ ''class Foo(Scene): pass'' @ fence)),
             open_error = (\<lambda>_. None),
             run = (\<lambda>fs args. Exited 0 ''ok'' [] (fs(the (manim_output args) \<mapsto> ''mp4'')))\<rparr>;
       b = Body (JObj [(''prompt'', JStr ''a square'')]);
       w = \<lparr>files = Map.empty, console = []\<rparr>
   in renders_to_convention e \<and> generate e b w = (resp_success ''Foo'' ''ok'', snd (generate e b w)) \<and>
      fst (ai_video_retrieve (Some ''Foo'') (snd (generate e b w))) = FileResp (video_path ''Foo'') ''video/mp4''"
proof -
  let ?e = "\<lparr>llm = (\<lambda>_. LlmText (fence @ ''python'' @ [LF] @ ''class Foo(Scene): pass'' @ fence)),
             open_error = (\<lambda>_. None),
             run = (\<lambda>fs args. Exited 0 ''ok'' [] (fs(the (manim_output args) \<mapsto> ''mp4'')))\<rparr>"
  let ?b = "Body (JObj [(''prompt'', JStr ''a square'')])"
  let ?w = "\<lparr>files = Map.empty, console = []\<rparr>"
  have conv: "renders_to_convention ?e"
    by (simp add: renders_to_convention_def)
  have gen: "fst (generate ?e ?b ?w) = resp_success ''Foo'' ''ok''"
    by (simp add: generate_def generate_render_def render_invoke_def call_llm_def print_line_def
        extract_code_def fence_search_def fence_at_def py_strip_def py_isspace_def py_isword_def
        resolve_scene_name_def scene_search_def scene_at_def sublist_Cons_right Let_def)
  then have gen': "generate ?e ?b ?w = (resp_success ''Foo'' ''ok'', snd (generate ?e ?b ?w))"
    by (metis prod.collapse)
  show ?thesis
    using generate_then_retrieve[OF conv gen'] conv gen' by (simp only: Let_def)
qed

text \<open>
  C12. The sentinel test is a substring test: when the model's reply is
  fine but the extracted code contains \<open>error:\<close> anywhere (a comment, a
  string, \<open>except E as error:\<close>), the service answers
  \<open>{"status": "error", "message": <the code>}\<close> and never writes or renders
  it.
\<close>

theorem generate_sentinel_false_positive:
  assumes "py_get data ''prompt'' (JStr []) = Inr p" and "py_truthy p"
    and "llm e (llm_request p) = LlmText t" and "sublist ''error:'' (extract_code t)"
  shows "fst (generate e (Body data) w) = resp_error_message (extract_code t)
    \<and> files (snd (generate e (Body data) w)) = files w"
  using assms by (simp add: generate_def call_llm_def print_line_def Let_def)

theorem generate_sentinel_false_positive_witness:
  "let code = ''class A(Scene): pass  # error: none'';
       t = fence @ ''python'' @ [LF] @ code @ fence;
       e = \<lparr>llm = (\<lambda>_. LlmText t), open_error = (\<lambda>_. None), run = (\<lambda>fs _. Exited 0 [] [] fs)\<rparr>;
       d = JObj [(''prompt'', JStr ''a circle'')];
       w = \<lparr>files = Map.empty, console = []\<rparr>
   in py_get d ''prompt'' (JStr []) = Inr (JStr ''a circle'') \<and> py_truthy (JStr ''a circle'') \<and>
      llm e (llm_request (JStr ''a circle'')) = LlmText t \<and> extract_code t = code \<and>
      sublist ''error:'' code \<and>
      fst (generate e (Body d) w) = resp_error_message code \<and> files (snd (generate e (Body d) w)) = files w"
  using generate_sentinel_false_positive[of "JObj [(''prompt'', JStr ''a circle'')]" "JStr ''a circle''"
      "\<lparr>llm = (\<lambda>_. LlmText (fence @ ''python'' @ [LF] @ ''class A(Scene): pass  # error: none'' @ fence)),
        open_error = (\<lambda>_. None), run = (\<lambda>fs _. Exited 0 [] [] fs)\<rparr>"
      "fence @ ''python'' @ [LF] @ ''class A(Scene): pass  # error: none'' @ fence"]
  by (simp add: extract_code_def fence_search_def fence_at_def py_strip_def py_isspace_def
      sublist_Cons_right Let_def)

text \<open>
  C13. The adapter's instruction and its extractor disagree: a reply that
  does what the instruction asks (code without a fence) is extracted as
  \<open>""\<close>, which passes the sentinel test, so the service overwrites
  \<^verbatim>\<open>video.py\<close> with the empty file and renders the default scene
  \<open>Generated_Scene\<close>, answering from that render.
\<close>

theorem generate_unfenced_reply:
  assumes "py_get data ''prompt'' (JStr []) = Inr p" and "py_truthy p"
    and "llm e (llm_request p) = LlmText t" and "\<not> sublist fence t"
    and "open_error e source_file = None"
    and "run e ((files w)(source_file \<mapsto> [])) (manim_argv default_scene) = Exited rc out err fs"
  shows "fst (generate e (Body data) w) =
           (if rc \<noteq> 0 then resp_error_details err else resp_success default_scene out)
    \<and> files (snd (generate e (Body data) w)) = fs"
proof -
  have ex: "extract_code t = []"
    using assms(4) by (auto simp: extract_code_def dest: fence_search_sublist split: option.split)
  have rs: "resolve_scene_name [] = default_scene"
    by (simp add: resolve_scene_name_def scene_search_def scene_at_def)
  show ?thesis
    using assms ex rs
    by (simp add: generate_def generate_render_def render_invoke_def call_llm_def print_line_def Let_def)
qed

theorem generate_unfenced_reply_witness:
  "let t = ''from manim import *'' @ [LF] @ ''class A(Scene): pass'';
       e = \<lparr>llm = (\<lambda>_. LlmText t), open_error = (\<lambda>_. None),
            run = (\<lambda>fs _. Exited 1 [] ''No Scene named Generated_Scene'' fs)\<rparr>;
       d = JObj [(''prompt'', JStr ''a circle'')];
       w = \<lparr>files = Map.empty, console = []\<rparr>
   in py_get d ''prompt'' (JStr []) = Inr (JStr ''a circle'') \<and> py_truthy (JStr ''a circle'') \<and>
      llm e (llm_request (JStr ''a circle'')) = LlmText t \<and> \<not> sublist fence t \<and>
      open_error e source_file = None \<and>
      run e ((files w)(source_file \<mapsto> [])) (manim_argv default_scene)
        = Exited 1 [] ''No Scene named Generated_Scene'' ((files w)(source_file \<mapsto> [])) \<and>
      fst (generate e (Body d) w) = resp_error_details ''No Scene named Generated_Scene'' \<and>
      files (snd (generate e (Body d) w)) = [source_file \<mapsto> []]"
  using generate_unfenced_reply[of "JObj [(''prompt'', JStr ''a circle'')]" "JStr ''a circle''"
      "\<lparr>llm = (\<lambda>_. LlmText (''from manim import *'' @ [LF] @ ''class A(Scene): pass'')),
        open_error = (\<lambda>_. None), run = (\<lambda>fs _. Exited 1 [] ''No Scene named Generated_Scene'' fs)\<rparr>"
      "''from manim import *'' @ [LF] @ ''class A(Scene): pass''"]
  by (simp add: sublist_Cons_right Let_def)

end
